theory Spec2Isabelle
  imports Main
begin

section \<open>Library path builder (src/common/library-cfg-utils.js)\<close>

text \<open>
  JavaScript strings are modelled as \<open>string\<close>. A thrown \<open>Error(msg)\<close> is the value
  \<open>Inl msg\<close>; a normal return is \<open>Inr\<close>.
\<close>

text \<open>\<^verbatim>\<open>LIBRARY_TYPES\<close> of src/common/global.js, as \<^verbatim>\<open>Object.values(LIBRARY_TYPES)\<close>.\<close>

definition LIBRARY_TYPES :: "string list" where
  "LIBRARY_TYPES = [''blocks'', ''templates'', ''icons'', ''placeholders'']"

text \<open>\<^verbatim>\<open>path.startsWith('/') ? path.slice(1) : path\<close>\<close>

fun cleanPath :: "string \<Rightarrow> string" where
  "cleanPath [] = []"
| "cleanPath (c # cs) = (if c = CHR ''/'' then cs else c # cs)"

text \<open>
  \<^verbatim>\<open>buildLibraryPath(type, baseFolder, itemName = null)\<close>. The item name is \<open>None\<close> for
  \<^verbatim>\<open>null\<close>; the test \<^verbatim>\<open>itemName ? ... : base\<close> is also false for the empty string.
\<close>

definition buildLibraryPath :: "string \<Rightarrow> string \<Rightarrow> string option \<Rightarrow> string + string" where
  "buildLibraryPath type baseFolder itemName =
     (if type \<notin> set LIBRARY_TYPES then Inl (''Unknown library type: '' @ type)
      else
        let base = ''/'' @ cleanPath baseFolder @ ''/'' @ type
        in (case itemName of
              None \<Rightarrow> Inr base
            | Some n \<Rightarrow> if n = [] then Inr base else Inr (base @ ''/'' @ n)))"



section \<open>Sheet document model (src/common/library-cfg-utils.js)\<close>

text \<open>
  A row is a JavaScript object mapping column names to strings, kept as an association
  list in key order; \<^verbatim>\<open>row[k]\<close> is \<open>map_of row k\<close>, with \<open>None\<close> for \<^verbatim>\<open>undefined\<close>.
\<close>

type_synonym row = "(string \<times> string) list"

text \<open>
  A sheet object as it travels in JSON. Every member may be absent (\<open>None\<close>).
  \<open>sh_colWidths\<close> is the member \<^verbatim>\<open>':colWidths'\<close>.
\<close>

record sheet =
  sh_total :: "nat option"
  sh_limit :: "nat option"
  sh_offset :: "nat option"
  sh_data :: "row list option"
  sh_colWidths :: "nat list option"

text \<open>
  A multi-sheet object: its named sheets in key order, \<^verbatim>\<open>':version'\<close> and \<^verbatim>\<open>':names'\<close>.
\<close>

record multi =
  ms_sheets :: "(string \<times> sheet) list"
  ms_version :: "nat option"
  ms_names :: "string list option"

text \<open>
  A JSON document of the remote store. The constructor is the document's \<^verbatim>\<open>':type'\<close>
  tag: \<open>Sheet\<close> for \<^verbatim>\<open>'sheet'\<close>, \<open>MultiSheet\<close> for \<^verbatim>\<open>'multi-sheet'\<close>, and
  \<open>Untagged\<close> for a single-table object with any other tag or none (for instance the
  \<^verbatim>\<open>{}\<close> that \<^verbatim>\<open>parseResponseBody\<close> returns for an empty body).
\<close>

datatype document = Sheet sheet | MultiSheet multi | Untagged sheet

text \<open>\<^verbatim>\<open>createSheetStructure(data)\<close>\<close>

definition createSheetStructure :: "row list \<Rightarrow> sheet" where
  "createSheetStructure rows =
     \<lparr> sh_total = Some (length rows), sh_limit = Some (length rows), sh_offset = Some 0,
       sh_data = Some rows, sh_colWidths = None \<rparr>"

text \<open>\<^verbatim>\<open>createSheet(entries)\<close>: the same with \<^verbatim>\<open>':type': 'sheet'\<close>.\<close>

definition createSheet :: "row list \<Rightarrow> document" where
  "createSheet entries = Sheet (createSheetStructure entries)"

text \<open>\<^verbatim>\<open>dataSheet?.data || []\<close> for a sheet that may be \<^verbatim>\<open>null\<close>.\<close>

definition dataOrEmpty :: "sheet option \<Rightarrow> row list" where
  "dataOrEmpty dataSheet =
     (case dataSheet of None \<Rightarrow> [] | Some s \<Rightarrow> (case sh_data s of None \<Rightarrow> [] | Some rows \<Rightarrow> rows))"

text \<open>\<^verbatim>\<open>Array.prototype.findIndex\<close>: the first index whose element passes, \<open>None\<close> for -1.\<close>

fun findIndex :: "('a \<Rightarrow> bool) \<Rightarrow> 'a list \<Rightarrow> nat option" where
  "findIndex p [] = None"
| "findIndex p (x # xs) =
     (if p x then Some 0 else (case findIndex p xs of None \<Rightarrow> None | Some i \<Rightarrow> Some (Suc i)))"

text \<open>
  \<^verbatim>\<open>addEntry(dataSheet, entry, keyField)\<close>. The source overwrites or pushes into the array
  of the sheet it was given and wraps that same array; the model returns the resulting
  sheet as a value.
\<close>

definition addEntry :: "sheet option \<Rightarrow> row \<Rightarrow> string \<Rightarrow> sheet" where
  "addEntry dataSheet entry keyField =
     (let rows = dataOrEmpty dataSheet
      in (case findIndex (\<lambda>item. map_of item keyField = map_of entry keyField) rows of
            Some existingIndex \<Rightarrow> createSheetStructure (rows[existingIndex := entry])
          | None \<Rightarrow> createSheetStructure (rows @ [entry])))"


text \<open>
  \<^verbatim>\<open>entryExists(dataSheet, key, keyField)\<close>. The callers pass \<^verbatim>\<open>entry[keyField]\<close> as the
  key, which is \<^verbatim>\<open>undefined\<close> (\<open>None\<close>) when the entry has no such member.
\<close>

definition entryExists :: "sheet option \<Rightarrow> string option \<Rightarrow> string \<Rightarrow> bool" where
  "entryExists dataSheet key keyField =
     list_ex (\<lambda>item. map_of item keyField = key) (dataOrEmpty dataSheet)"

text \<open>The rows of a sheet whose key field carries the same value as the given row's.\<close>

definition rowsWithKeyOf :: "row \<Rightarrow> string \<Rightarrow> row list \<Rightarrow> row list" where
  "rowsWithKeyOf r k rows = filter (\<lambda>item. map_of item k = map_of r k) rows"

text \<open>
  \<^verbatim>\<open>createMultiSheetJSON(sheets)\<close>. The argument is an object from sheet names to
  objects that may carry a \<^verbatim>\<open>data\<close> array; only that array is read
  (\<^verbatim>\<open>sheet.data || []\<close>) and wrapped by \<^verbatim>\<open>createSheetStructure\<close>. The members
  \<^verbatim>\<open>':version'\<close>, \<^verbatim>\<open>':names'\<close> and \<^verbatim>\<open>':type'\<close> are written last, so a sheet under one
  of these names is overwritten.
\<close>

definition reservedKeys :: "string list" where
  "reservedKeys = ['':version'', '':names'', '':type'']"

definition createMultiSheetJSON :: "(string \<times> sheet) list \<Rightarrow> document" where
  "createMultiSheetJSON sheets =
     MultiSheet
       \<lparr> ms_sheets =
           filter (\<lambda>(name, out). name \<notin> set reservedKeys)
             (map (\<lambda>(name, sheet). (name, createSheetStructure (dataOrEmpty (Some sheet)))) sheets),
         ms_version = Some 3,
         ms_names = Some (map fst sheets) \<rparr>"

text \<open>\<^verbatim>\<open>getDataSheet(jsonData)\<close> and \<^verbatim>\<open>getOptionsSheet(jsonData)\<close>; \<open>None\<close> is \<^verbatim>\<open>null\<close>.\<close>

fun getDataSheet :: "document option \<Rightarrow> sheet option" where
  "getDataSheet None = None"
| "getDataSheet (Some (MultiSheet m)) = map_of (ms_sheets m) ''data''"
| "getDataSheet (Some (Sheet s)) = Some s"
| "getDataSheet (Some (Untagged s)) = Some s"


text \<open>\<^verbatim>\<open>createDefaultBlockOptions()\<close>: an object with only a \<^verbatim>\<open>data\<close> array.\<close>

definition createDefaultBlockOptions :: sheet where
  "createDefaultBlockOptions =
     \<lparr> sh_total = None, sh_limit = None, sh_offset = None,
       sh_data = Some
         [ [(''key'', ''style''), (''blocks'', ''section-metadata''),
            (''values'', ''xxs-spacing | xs-spacing | s-spacing | m-spacing | l-spacing | xl-spacing | xxl-spacing | dark | light | quiet'')],
           [(''key'', ''gap''), (''blocks'', ''ALL''),
            (''values'', ''100 | 200 | 300 | 400 | 500 | 600 | 700 | 800'')],
           [(''key'', ''background''), (''blocks'', ''section-metadata''),
            (''values'', ''dark-grey=#676767 | light-grey=#EFEFEF | adobe-red=#FF0000 | blue=#0077B6 | green=#00A36C'')],
           [(''key'', ''spacing''), (''blocks'', ''section-metadata''),
            (''values'', ''400 | 500 | 600 | 700 | 800'')],
           [(''key'', ''template''), (''blocks'', ''metadata''),
            (''values'', ''blog-post | product-page | feature-page'')] ],
       sh_colWidths = None \<rparr>"

text \<open>
  \<^verbatim>\<open>LIBRARY_CONFIG[type] || {}\<close> of src/common/global.js: only \<^verbatim>\<open>blocks\<close> has an entry.
\<close>

record libraryConfig =
  multiSheet :: bool
  hasOptions :: bool

definition LIBRARY_CONFIG :: "string \<Rightarrow> libraryConfig" where
  "LIBRARY_CONFIG type =
     (if type = ''blocks'' then \<lparr> multiSheet = True, hasOptions = True \<rparr>
      else \<lparr> multiSheet = False, hasOptions = False \<rparr>)"

text \<open>\<^verbatim>\<open>createLibraryJSON(type, entries, optionsSheet = null)\<close>\<close>

definition createLibraryJSON :: "string \<Rightarrow> row list \<Rightarrow> sheet option \<Rightarrow> string + document" where
  "createLibraryJSON type entries optionsSheet =
     (if type \<notin> set LIBRARY_TYPES then Inl (''Unknown library type: '' @ type)
      else
        let config = LIBRARY_CONFIG type;
            dataOnly = \<lparr> sh_total = None, sh_limit = None, sh_offset = None,
                         sh_data = Some entries, sh_colWidths = None \<rparr>
        in if multiSheet config then
             Inr (createMultiSheetJSON
                    ((''data'', dataOnly) #
                     (case optionsSheet of
                        Some opts \<Rightarrow> [(''options'', opts)]
                      | None \<Rightarrow> if hasOptions config then [(''options'', createDefaultBlockOptions)] else [])))
           else Inr (createSheet entries))"

section \<open>The remote document store (src/common/utils.js)\<close>

text \<open>
  The store keeps one JSON document per request URL. Every request first takes the head
  of a schedule of transport faults: \<open>Some msg\<close> makes the request throw \<^verbatim>\<open>Error(msg)\<close>
  without effect, \<open>None\<close> (or an exhausted schedule) lets it through. A GET of a URL
  without a document throws the not-found error, whose message starts with the status.
\<close>

record remote =
  files :: "string \<Rightarrow> document option"
  faults :: "string option list"

definition ADMIN_API_URL :: string where
  "ADMIN_API_URL = ''https://admin.da.live''"


definition formatURL :: "string \<Rightarrow> string \<Rightarrow> string \<Rightarrow> string \<Rightarrow> string \<Rightarrow> string" where
  "formatURL api org repo path ext =
     ADMIN_API_URL @ ''/'' @ api @ ''/'' @ org @ ''/'' @ repo @ ''/'' @ cleanPath path
       @ (if ext \<noteq> [] then ''.'' @ ext else [])"


definition nextFault :: "remote \<Rightarrow> string option \<times> remote" where
  "nextFault r = (case faults r of [] \<Rightarrow> (None, r) | f # fs \<Rightarrow> (f, r \<lparr> faults := fs \<rparr>))"

text \<open>\<^verbatim>\<open>daAdminRequest(url)\<close> with the default method GET.\<close>

definition daAdminGet :: "remote \<Rightarrow> string \<Rightarrow> (string + document) \<times> remote" where
  "daAdminGet r url =
     (case nextFault r of
        (Some msg, r') \<Rightarrow> (Inl msg, r')
      | (None, r') \<Rightarrow>
          (case files r' url of
             None \<Rightarrow> (Inl ''API 404 Not Found'', r')
           | Some d \<Rightarrow> (Inr d, r')))"

text \<open>\<^verbatim>\<open>daAdminRequest(url, { method, body })\<close> with a JSON document as the payload.\<close>

definition daAdminSend :: "remote \<Rightarrow> string \<Rightarrow> document \<Rightarrow> (string + unit) \<times> remote" where
  "daAdminSend r url d =
     (case nextFault r of
        (Some msg, r') \<Rightarrow> (Inl msg, r')
      | (None, r') \<Rightarrow> (Inr (), r' \<lparr> files := (files r')(url := Some d) \<rparr>))"

text \<open>\<^verbatim>\<open>String.prototype.startsWith\<close> and \<^verbatim>\<open>String.prototype.includes\<close>.\<close>

definition startsWith :: "string \<Rightarrow> string \<Rightarrow> bool" where
  "startsWith s p = (take (length p) s = p)"

fun includesStr :: "string \<Rightarrow> string \<Rightarrow> bool" where
  "includesStr [] p = (p = [])"
| "includesStr (c # cs) p = (startsWith (c # cs) p \<or> includesStr cs p)"

section \<open>Library sheet manager (src/common/sheet-utils.js)\<close>

definition uploadSheetJSON :: "remote \<Rightarrow> string \<Rightarrow> string \<Rightarrow> string \<Rightarrow> document \<Rightarrow> (string + unit) \<times> remote" where
  "uploadSheetJSON r org repo path sheetJSON =
     daAdminSend r (formatURL ''source'' org repo path ''json'') sheetJSON"

definition getSheetJSON :: "remote \<Rightarrow> string \<Rightarrow> string \<Rightarrow> string \<Rightarrow> (string + document option) \<times> remote" where
  "getSheetJSON r org repo path =
     (case daAdminGet r (formatURL ''source'' org repo path ''json'') of
        (Inl msg, r') \<Rightarrow> if includesStr msg ''404'' then (Inr None, r') else (Inl msg, r')
      | (Inr d, r') \<Rightarrow> (Inr (Some d), r'))"

record addResult =
  ar_added :: bool
  ar_existed :: bool
  ar_path :: string
  ar_entry :: row

text \<open>
  \<^verbatim>\<open>addSheetItem(org, repo, entry, keyField, path, createSheetFn)\<close>; the encoder
  \<^verbatim>\<open>createSheetFn\<close> may throw.
\<close>

definition addSheetItem ::
  "remote \<Rightarrow> string \<Rightarrow> string \<Rightarrow> row \<Rightarrow> string \<Rightarrow> string \<Rightarrow> (row list \<Rightarrow> string + document)
     \<Rightarrow> (string + addResult) \<times> remote" where
  "addSheetItem r org repo entry keyField path createSheetFn =
     (case getSheetJSON r org repo path of
        (Inl e, r1) \<Rightarrow> (Inl e, r1)
      | (Inr sheetJSON, r1) \<Rightarrow>
          let dataSheet = (case sheetJSON of None \<Rightarrow> None | Some d \<Rightarrow> getDataSheet (Some d));
              existed = (case dataSheet of
                           None \<Rightarrow> False
                         | Some ds \<Rightarrow> entryExists (Some ds) (map_of entry keyField) keyField);
              updatedDataSheet = addEntry dataSheet entry keyField
          in (case createSheetFn (dataOrEmpty (Some updatedDataSheet)) of
                Inl e \<Rightarrow> (Inl e, r1)
              | Inr newSheetJSON \<Rightarrow>
                  (case uploadSheetJSON r1 org repo path newSheetJSON of
                     (Inl e, r2) \<Rightarrow> (Inl e, r2)
                   | (Inr u, r2) \<Rightarrow>
                       (Inr \<lparr> ar_added = True, ar_existed = existed, ar_path = path,
                              ar_entry = entry \<rparr>, r2))))"

record summary =
  sm_total :: nat
  sm_added :: nat
  sm_updated :: nat
  sm_failed :: nat

text \<open>
  One element of \<^verbatim>\<open>result.items\<close>: the input item, spread, with \<^verbatim>\<open>success\<close> and either
  \<^verbatim>\<open>existed\<close> or \<^verbatim>\<open>error\<close>.
\<close>

record outcome =
  oc_item :: row
  oc_success :: bool
  oc_existed :: "bool option"
  oc_error :: "string option"

record setupResult =
  sr_summary :: summary
  sr_items :: "outcome list"
  sr_errors :: "string list"
  sr_success :: bool

text \<open>
  The label \<^verbatim>\<open>${item[keyField] || item.key || item.name}\<close> of an error line: the first
  non-empty member, else \<^verbatim>\<open>item.name\<close> as the template prints it.
\<close>

definition truthy :: "string option \<Rightarrow> bool" where
  "truthy v = (case v of None \<Rightarrow> False | Some s \<Rightarrow> s \<noteq> [])"

definition printed :: "string option \<Rightarrow> string" where
  "printed v = (case v of None \<Rightarrow> ''undefined'' | Some s \<Rightarrow> s)"

definition errorLabel :: "row \<Rightarrow> string \<Rightarrow> string" where
  "errorLabel item keyField =
     (if truthy (map_of item keyField) then printed (map_of item keyField)
      else if truthy (map_of item ''key'') then printed (map_of item ''key'')
      else printed (map_of item ''name''))"

text \<open>
  The body of the \<^verbatim>\<open>for (const item of items)\<close> loop of \<^verbatim>\<open>setupSheetItems\<close>, with its
  \<^verbatim>\<open>try\<close>/\<^verbatim>\<open>catch\<close>: the entry builder \<^verbatim>\<open>createEntry\<close> and \<^verbatim>\<open>addSheetItem\<close> may throw.
\<close>

fun setupLoop ::
  "string \<Rightarrow> string \<Rightarrow> string \<Rightarrow> string \<Rightarrow> (row list \<Rightarrow> string + document) \<Rightarrow> (row \<Rightarrow> string + row)
     \<Rightarrow> row list \<Rightarrow> setupResult \<Rightarrow> remote \<Rightarrow> setupResult \<times> remote" where
  "setupLoop org repo keyField path createSheetFn createEntry [] result r = (result, r)"
| "setupLoop org repo keyField path createSheetFn createEntry (item # items) result r =
     (case (case createEntry item of
              Inl e \<Rightarrow> (Inl e, r)
            | Inr entry \<Rightarrow> addSheetItem r org repo entry keyField path createSheetFn) of
        (Inr addResult, r') \<Rightarrow>
          setupLoop org repo keyField path createSheetFn createEntry items
            (result
              \<lparr> sr_items := sr_items result @
                   [\<lparr> oc_item = item, oc_success = True, oc_existed = Some (ar_existed addResult),
                      oc_error = None \<rparr>],
                sr_summary :=
                  (if ar_existed addResult
                   then (sr_summary result) \<lparr> sm_updated := sm_updated (sr_summary result) + 1 \<rparr>
                   else (sr_summary result) \<lparr> sm_added := sm_added (sr_summary result) + 1 \<rparr>) \<rparr>)
            r'
      | (Inl message, r') \<Rightarrow>
          setupLoop org repo keyField path createSheetFn createEntry items
            (result
              \<lparr> sr_items := sr_items result @
                   [\<lparr> oc_item = item, oc_success = False, oc_existed = None,
                      oc_error = Some message \<rparr>],
                sr_summary := (sr_summary result) \<lparr> sm_failed := sm_failed (sr_summary result) + 1 \<rparr>,
                sr_errors := sr_errors result @ [errorLabel item keyField @ '': '' @ message] \<rparr>)
            r')"

text \<open>
  \<^verbatim>\<open>setupSheetItems(org, repo, items, keyField, path, createSheetFn, createEntry)\<close>:
  \<^verbatim>\<open>result.success\<close> is set after the loop.
\<close>

definition setupSheetItems ::
  "remote \<Rightarrow> string \<Rightarrow> string \<Rightarrow> row list \<Rightarrow> string \<Rightarrow> string \<Rightarrow> (row list \<Rightarrow> string + document)
     \<Rightarrow> (row \<Rightarrow> string + row) \<Rightarrow> setupResult \<times> remote" where
  "setupSheetItems r org repo items keyField path createSheetFn createEntry =
     (case setupLoop org repo keyField path createSheetFn createEntry items
             \<lparr> sr_summary = \<lparr> sm_total = length items, sm_added = 0, sm_updated = 0, sm_failed = 0 \<rparr>,
               sr_items = [], sr_errors = [], sr_success = False \<rparr> r of
        (result, r') \<Rightarrow> (result \<lparr> sr_success := (sm_failed (sr_summary result) = 0) \<rparr>, r'))"

text \<open>The icon library of src/operations/icons.js, as one user of the batch operation.\<close>

definition createIconsJSON :: "row list \<Rightarrow> string + document" where
  "createIconsJSON entries = createLibraryJSON ''icons'' entries None"

text \<open>
  \<^verbatim>\<open>{ key: item.key, icon: item.icon }\<close>: a member that is \<^verbatim>\<open>undefined\<close> reads as absent.
\<close>

definition copyMember :: "row \<Rightarrow> string \<Rightarrow> string \<Rightarrow> row" where
  "copyMember item from to = (case map_of item from of None \<Rightarrow> [] | Some v \<Rightarrow> [(to, v)])"

definition createIconEntry :: "row \<Rightarrow> string + row" where
  "createIconEntry item = Inr (copyMember item ''key'' ''key'' @ copyMember item ''icon'' ''icon'')"

section \<open>Block library (src/operations/library.js)\<close>

text \<open>
  \<^verbatim>\<open>charAt(0).toUpperCase() + slice(1)\<close>, on the letters a to z.
\<close>

definition toUpperCase :: "char \<Rightarrow> char" where
  "toUpperCase c =
     (case map_of (zip ''abcdefghijklmnopqrstuvwxyz'' ''ABCDEFGHIJKLMNOPQRSTUVWXYZ'') c of
        Some u \<Rightarrow> u
      | None \<Rightarrow> c)"


definition getBlocksPath :: "string \<Rightarrow> string + string" where
  "getBlocksPath baseFolder = buildLibraryPath ''blocks'' baseFolder None"






text \<open>\<^verbatim>\<open>createBlocksJSONFile(org, repo, blocks, baseFolder)\<close>: the document it uploads.\<close>

definition createBlocksJSONFile :: "remote \<Rightarrow> string \<Rightarrow> string \<Rightarrow> row list \<Rightarrow> string \<Rightarrow> (string + nat) \<times> remote" where
  "createBlocksJSONFile r org repo blocks baseFolder =
     (case getBlocksPath baseFolder of
        Inl e \<Rightarrow> (Inl e, r)
      | Inr path \<Rightarrow>
          (case createLibraryJSON ''blocks'' blocks None of
             Inl e \<Rightarrow> (Inl e, r)
           | Inr blocksJSON \<Rightarrow>
               (case uploadSheetJSON r org repo path blocksJSON of
                  (Inl e, r1) \<Rightarrow> (Inl e, r1)
                | (Inr u, r1) \<Rightarrow> (Inr (length blocks), r1))))"

section \<open>Site configuration registrar (src/operations/config.js)\<close>

text \<open>
  \<^verbatim>\<open>registerLibraryType\<close> writes into the library sheet after \<^verbatim>\<open>ensureLibrarySheet\<close> has
  built the new configuration around it, so what is uploaded depends on which objects
  and arrays the two share. The objects of one call therefore live in an explicit store:
  row arrays and sheet objects are held by address, and a sheet object refers to its
  \<^verbatim>\<open>data\<close> array by address.
\<close>

type_synonym addr = nat

record sheetObj =
  o_total :: "nat option"
  o_limit :: "nat option"
  o_offset :: "nat option"
  o_data :: "addr option"
  o_colWidths :: "nat list option"

record store =
  arrays :: "addr \<Rightarrow> row list"
  objects :: "addr \<Rightarrow> sheetObj"
  fresh :: addr

definition emptyStore :: store where
  "emptyStore =
     \<lparr> arrays = (\<lambda>a. []),
       objects = (\<lambda>a. \<lparr> o_total = None, o_limit = None, o_offset = None, o_data = None,
                          o_colWidths = None \<rparr>),
       fresh = 0 \<rparr>"

definition newArray :: "row list \<Rightarrow> store \<Rightarrow> addr \<times> store" where
  "newArray rows st =
     (fresh st, st \<lparr> arrays := (arrays st)(fresh st := rows), fresh := Suc (fresh st) \<rparr>)"

definition newObject :: "sheetObj \<Rightarrow> store \<Rightarrow> addr \<times> store" where
  "newObject obj st =
     (fresh st, st \<lparr> objects := (objects st)(fresh st := obj), fresh := Suc (fresh st) \<rparr>)"

text \<open>
  A multi-sheet object in memory: its named members by address. What is stored under a
  name is a sheet object or, for the members \<^verbatim>\<open>':type'\<close>, \<^verbatim>\<open>':names'\<close> and \<^verbatim>\<open>':version'\<close>,
  a value without a \<^verbatim>\<open>data\<close> member.
\<close>

record memMulti =
  mm_sheets :: "(string \<times> addr) list"
  mm_version :: "nat option"
  mm_names :: "string list option"

datatype memConfig = MemSheet sheetObj | MemMulti memMulti | MemUntagged sheetObj

datatype member = SheetAt addr | NotASheet

text \<open>Parsing the JSON of a response allocates new objects and arrays.\<close>

definition loadSheet :: "sheet \<Rightarrow> store \<Rightarrow> sheetObj \<times> store" where
  "loadSheet s st =
     (case sh_data s of
        None \<Rightarrow>
          (\<lparr> o_total = sh_total s, o_limit = sh_limit s, o_offset = sh_offset s, o_data = None,
             o_colWidths = sh_colWidths s \<rparr>, st)
      | Some rows \<Rightarrow>
          (case newArray rows st of
             (a, st') \<Rightarrow>
               (\<lparr> o_total = sh_total s, o_limit = sh_limit s, o_offset = sh_offset s,
                  o_data = Some a, o_colWidths = sh_colWidths s \<rparr>, st')))"

fun loadSheets :: "(string \<times> sheet) list \<Rightarrow> store \<Rightarrow> (string \<times> addr) list \<times> store" where
  "loadSheets [] st = ([], st)"
| "loadSheets ((name, s) # rest) st =
     (case loadSheet s st of
        (obj, st1) \<Rightarrow>
          (case newObject obj st1 of
             (a, st2) \<Rightarrow>
               (case loadSheets rest st2 of
                  (ms, st3) \<Rightarrow> ((name, a) # ms, st3))))"

fun load :: "document \<Rightarrow> store \<Rightarrow> memConfig \<times> store" where
  "load (Sheet s) st = (case loadSheet s st of (obj, st') \<Rightarrow> (MemSheet obj, st'))"
| "load (Untagged s) st = (case loadSheet s st of (obj, st') \<Rightarrow> (MemUntagged obj, st'))"
| "load (MultiSheet m) st =
     (case loadSheets (ms_sheets m) st of
        (ms, st') \<Rightarrow>
          (MemMulti \<lparr> mm_sheets = ms, mm_version = ms_version m, mm_names = ms_names m \<rparr>, st'))"

text \<open>\<^verbatim>\<open>JSON.stringify\<close> of a multi-sheet object reads every member through the store.\<close>

definition dumpSheet :: "store \<Rightarrow> sheetObj \<Rightarrow> sheet" where
  "dumpSheet st obj =
     \<lparr> sh_total = o_total obj, sh_limit = o_limit obj, sh_offset = o_offset obj,
       sh_data = map_option (arrays st) (o_data obj), sh_colWidths = o_colWidths obj \<rparr>"

definition dump :: "store \<Rightarrow> memMulti \<Rightarrow> document" where
  "dump st m =
     MultiSheet
       \<lparr> ms_sheets = map (\<lambda>(name, a). (name, dumpSheet st (objects st a))) (mm_sheets m),
         ms_version = mm_version m,
         ms_names = mm_names m \<rparr>"

text \<open>
  \<^verbatim>\<open>createMultiSheetJSON(sheets)\<close> on the store: \<^verbatim>\<open>rows = sheet.data || []\<close> is the array of
  the given sheet itself when it has one, else a new empty array, and each output sheet
  is a new object around that array.
\<close>

fun buildSheets :: "(string \<times> member) list \<Rightarrow> store \<Rightarrow> (string \<times> addr) list \<times> store" where
  "buildSheets [] st = ([], st)"
| "buildSheets ((name, m) # rest) st =
     (case (case m of
              SheetAt a \<Rightarrow>
                (case o_data (objects st a) of Some d \<Rightarrow> (d, st) | None \<Rightarrow> newArray [] st)
            | NotASheet \<Rightarrow> newArray [] st) of
        (rows, st1) \<Rightarrow>
          (case newObject
                  \<lparr> o_total = Some (length (arrays st1 rows)),
                    o_limit = Some (length (arrays st1 rows)), o_offset = Some 0,
                    o_data = Some rows, o_colWidths = None \<rparr> st1 of
             (out, st2) \<Rightarrow>
               (case buildSheets rest st2 of
                  (outs, st3) \<Rightarrow> ((name, out) # outs, st3))))"

definition storeCreateMultiSheetJSON :: "(string \<times> member) list \<Rightarrow> store \<Rightarrow> memMulti \<times> store" where
  "storeCreateMultiSheetJSON sheets st =
     (case buildSheets sheets st of
        (outs, st') \<Rightarrow>
          (\<lparr> mm_sheets = filter (\<lambda>(name, out). name \<notin> set reservedKeys) outs,
             mm_version = Some 3,
             mm_names = Some (map fst sheets) \<rparr>, st'))"

text \<open>
  \<^verbatim>\<open>parseMultiSheetJSON(config)\<close>: for every name of \<^verbatim>\<open>config[':names'] || []\<close> whose member
  is truthy, that member, under the name's first position.
\<close>

definition lookupMember :: "memMulti \<Rightarrow> string \<Rightarrow> member option" where
  "lookupMember config name =
     (if name = '':type'' then Some NotASheet
      else if name = '':names'' then (case mm_names config of None \<Rightarrow> None | Some ns \<Rightarrow> Some NotASheet)
      else if name = '':version'' then
        (case mm_version config of None \<Rightarrow> None | Some v \<Rightarrow> if v = 0 then None else Some NotASheet)
      else map_option SheetAt (map_of (mm_sheets config) name))"

fun parseNames :: "memMulti \<Rightarrow> string list \<Rightarrow> (string \<times> member) list \<Rightarrow> (string \<times> member) list" where
  "parseNames config [] sheets = sheets"
| "parseNames config (name # names) sheets =
     (case lookupMember config name of
        None \<Rightarrow> parseNames config names sheets
      | Some v \<Rightarrow>
          parseNames config names
            (if name \<in> fst ` set sheets then sheets else sheets @ [(name, v)]))"

definition parseMultiSheetJSON :: "memMulti \<Rightarrow> (string \<times> member) list" where
  "parseMultiSheetJSON config =
     parseNames config (case mm_names config of None \<Rightarrow> [] | Some ns \<Rightarrow> ns) []"

text \<open>
  The object literal \<^verbatim>\<open>{ total: 0, limit: 0, offset: 0, data: [] }\<close>: a new object with a
  new array.
\<close>

definition newLibrarySheet :: "store \<Rightarrow> addr \<times> store" where
  "newLibrarySheet st =
     (case newArray [] st of
        (rows, st1) \<Rightarrow>
          newObject \<lparr> o_total = Some 0, o_limit = Some 0, o_offset = Some 0, o_data = Some rows,
                      o_colWidths = None \<rparr> st1)"

record ensured =
  newConfig :: memMulti
  librarySheet :: addr
  preservedRows :: nat
  sheetExisted :: bool

text \<open>
  \<^verbatim>\<open>convertToMultiSheet(config)\<close>. \<^verbatim>\<open>config.total || 0\<close> and \<^verbatim>\<open>config.data || []\<close> read
  the flat configuration; \<^verbatim>\<open>':colWidths'\<close> is copied when present.
\<close>

definition convertToMultiSheet :: "sheetObj \<Rightarrow> store \<Rightarrow> ensured \<times> store" where
  "convertToMultiSheet config st =
     (case (case o_data config of Some d \<Rightarrow> (d, st) | None \<Rightarrow> newArray [] st) of
        (rows, st1) \<Rightarrow>
          (case newObject
                  \<lparr> o_total = Some (case o_total config of None \<Rightarrow> 0 | Some n \<Rightarrow> n),
                    o_limit = None, o_offset = None, o_data = Some rows,
                    o_colWidths = o_colWidths config \<rparr> st1 of
             (existingDataSheet, st2) \<Rightarrow>
               (case newLibrarySheet st2 of
                  (lib, st3) \<Rightarrow>
                    (case storeCreateMultiSheetJSON
                            [(''data'', SheetAt existingDataSheet), (''library'', SheetAt lib)] st3 of
                       (out, st4) \<Rightarrow>
                         (\<lparr> newConfig = out, librarySheet = lib,
                            preservedRows = length (arrays st4 rows), sheetExisted = False \<rparr>,
                          st4)))))"

text \<open>\<^verbatim>\<open>ensureLibrarySheet(config)\<close>\<close>

fun ensureLibrarySheet :: "memConfig \<Rightarrow> store \<Rightarrow> ensured \<times> store" where
  "ensureLibrarySheet (MemSheet config) st = convertToMultiSheet config st"
| "ensureLibrarySheet (MemMulti config) st =
     (case map_of (mm_sheets config) ''library'' of
        Some lib \<Rightarrow>
          (\<lparr> newConfig = config, librarySheet = lib, preservedRows = 0, sheetExisted = True \<rparr>, st)
      | None \<Rightarrow>
          (case newLibrarySheet st of
             (lib, st1) \<Rightarrow>
               (case storeCreateMultiSheetJSON
                       (parseMultiSheetJSON config @ [(''library'', SheetAt lib)]) st1 of
                  (out, st2) \<Rightarrow>
                    (\<lparr> newConfig = out, librarySheet = lib, preservedRows = 0,
                       sheetExisted = False \<rparr>, st2))))"
| "ensureLibrarySheet (MemUntagged config) st =
     (case newLibrarySheet st of
        (lib, st1) \<Rightarrow>
          (case storeCreateMultiSheetJSON [(''library'', SheetAt lib)] st1 of
             (out, st2) \<Rightarrow>
               (\<lparr> newConfig = out, librarySheet = lib, preservedRows = 0, sheetExisted = False \<rparr>,
                st2)))"

text \<open>
  \<^verbatim>\<open>row[key] = value\<close> on a row object: an existing member is overwritten in place, a new
  one is added last.
\<close>

definition setMember :: "row \<Rightarrow> string \<Rightarrow> string \<Rightarrow> row" where
  "setMember item key v =
     (if key \<in> fst ` set item then map (\<lambda>(k, old). if k = key then (k, v) else (k, old)) item
      else item @ [(key, v)])"

text \<open>\<^verbatim>\<open>ensureLibraryColumns(newEntry, existingEntries)\<close> and \<^verbatim>\<open>createLibraryEntry\<close>.\<close>

definition ensureLibraryColumns :: "row \<Rightarrow> row list \<Rightarrow> row" where
  "ensureLibraryColumns newEntry existingEntries =
     (case existingEntries of
        [] \<Rightarrow> newEntry
      | firstEntry # others \<Rightarrow>
          foldl (\<lambda>enriched key. if key \<in> fst ` set enriched then enriched else enriched @ [(key, [])])
            newEntry (map fst firstEntry))"

definition createLibraryEntry :: "string \<Rightarrow> string \<Rightarrow> row list \<Rightarrow> row" where
  "createLibraryEntry libraryType configPath existingEntries =
     ensureLibraryColumns [(''title'', libraryType), (''path'', configPath)] existingEntries"

text \<open>\<^verbatim>\<open>buildConfigUrl(org, repo)\<close>: \<^verbatim>\<open>.replace(/\/$/, '')\<close> drops one trailing slash.\<close>

definition dropTrailingSlash :: "string \<Rightarrow> string" where
  "dropTrailingSlash s = (if s \<noteq> [] \<and> last s = CHR ''/'' then butlast s else s)"

definition buildConfigUrl :: "string \<Rightarrow> string \<Rightarrow> string" where
  "buildConfigUrl org repo = dropTrailingSlash (formatURL ''config'' org repo [] [])"

definition getSiteConfig :: "remote \<Rightarrow> string \<Rightarrow> string \<Rightarrow> (string + document) \<times> remote" where
  "getSiteConfig r org repo =
     (case daAdminGet r (buildConfigUrl org repo) of
        (Inl message, r') \<Rightarrow> (Inl (''Failed to get site config: '' @ message), r')
      | (Inr config, r') \<Rightarrow> (Inr config, r'))"

definition uploadConfig :: "remote \<Rightarrow> string \<Rightarrow> string \<Rightarrow> document \<Rightarrow> (string + unit) \<times> remote" where
  "uploadConfig r org repo configJSON = daAdminSend r (buildConfigUrl org repo) configJSON"

text \<open>\<^verbatim>\<open>getLibrarySheet(org, repo)\<close>: \<^verbatim>\<open>config?.library || null\<close>, and \<^verbatim>\<open>null\<close> on any error.\<close>

definition getLibrarySheet :: "remote \<Rightarrow> string \<Rightarrow> string \<Rightarrow> sheet option \<times> remote" where
  "getLibrarySheet r org repo =
     (case getSiteConfig r org repo of
        (Inl e, r') \<Rightarrow> (None, r')
      | (Inr (MultiSheet m), r') \<Rightarrow> (map_of (ms_sheets m) ''library'', r')
      | (Inr other, r') \<Rightarrow> (None, r'))"

record registration =
  registered :: bool
  existed :: bool
  createdSheet :: bool
  convertedToMultiSheet :: "bool option"
  libraryEntryCount :: "nat option"
  error :: "string option"

definition registrationFailed :: "string \<Rightarrow> registration" where
  "registrationFailed message =
     \<lparr> registered = False, existed = False, createdSheet = False, convertedToMultiSheet = None,
       libraryEntryCount = None, error = Some message \<rparr>"

text \<open>
  \<^verbatim>\<open>registerLibraryType(org, repo, libraryType, configPath)\<close>. Everything runs inside one
  \<^verbatim>\<open>try\<close>; the \<^verbatim>\<open>catch\<close> returns the failure record. Reading \<^verbatim>\<open>findIndex\<close> of a library
  sheet without a \<^verbatim>\<open>data\<close> array is the engine's type error. The writes go to the array
  and the object of \<^verbatim>\<open>librarySheet\<close>; what is uploaded is \<^verbatim>\<open>newConfig\<close>.
\<close>

definition registerLibraryType ::
  "remote \<Rightarrow> string \<Rightarrow> string \<Rightarrow> string \<Rightarrow> string \<Rightarrow> registration \<times> remote" where
  "registerLibraryType r org repo libraryType configPath =
     (case getSiteConfig r org repo of
        (Inl message, r1) \<Rightarrow> (registrationFailed message, r1)
      | (Inr fetched, r1) \<Rightarrow>
          (case load fetched emptyStore of
             (config, st0) \<Rightarrow>
               (case ensureLibrarySheet config st0 of
                  (en, st1) \<Rightarrow>
                    (case o_data (objects st1 (librarySheet en)) of
                       None \<Rightarrow>
                         (registrationFailed
                            ''Cannot read properties of undefined (reading 'findIndex')'', r1)
                     | Some d \<Rightarrow>
                         let existingIndex =
                               findIndex (\<lambda>item. map_of item ''title'' = Some libraryType) (arrays st1 d);
                             st2 = (case existingIndex of
                                      Some i \<Rightarrow>
                                        st1 \<lparr> arrays := (arrays st1)
                                          (d := (arrays st1 d)[i := setMember (arrays st1 d ! i) ''path'' configPath]) \<rparr>
                                    | None \<Rightarrow>
                                        st1 \<lparr> arrays := (arrays st1)
                                          (d := arrays st1 d @
                                             [createLibraryEntry libraryType configPath (arrays st1 d)]) \<rparr>);
                             lib = objects st2 (librarySheet en);
                             st3 = st2 \<lparr> objects := (objects st2)
                                     (librarySheet en :=
                                        lib \<lparr> o_total := Some (length (arrays st2 d)),
                                              o_limit := Some (length (arrays st2 d)) \<rparr>) \<rparr>
                         in (case uploadConfig r1 org repo (dump st3 (newConfig en)) of
                               (Inl message, r2) \<Rightarrow> (registrationFailed message, r2)
                             | (Inr u, r2) \<Rightarrow>
                                 (\<lparr> registered = True, existed = (existingIndex \<noteq> None),
                                    createdSheet = (\<not> sheetExisted en),
                                    convertedToMultiSheet =
                                      Some (case fetched of Sheet s \<Rightarrow> True | other \<Rightarrow> False),
                                    libraryEntryCount = Some (length (arrays st2 d)),
                                    error = None \<rparr>, r2))))))"

text \<open>
  Migration of a flat configuration as a function of documents: parse, convert, and
  serialise the new configuration.
\<close>

definition migrateFlat :: "sheet \<Rightarrow> document \<times> nat" where
  "migrateFlat s =
     (case loadSheet s emptyStore of
        (config, st0) \<Rightarrow>
          (case convertToMultiSheet config st0 of
             (en, st1) \<Rightarrow> (dump st1 (newConfig en), preservedRows en)))"

section \<open>Block content extractor (src/operations/blocks.js)\<close>

text \<open>
  The extractor works on raw text with regular expressions. The characters of a string
  are its code units (below 256). A regular expression of the extractor is a sequence of
  atoms: one character of a class, a greedy repetition \<^verbatim>\<open>[...]*\<close> of a class, or the
  assertion \<^verbatim>\<open>\b\<close>.
\<close>

datatype atom = One "char \<Rightarrow> bool" | Many "char \<Rightarrow> bool" | WordBoundary

definition isWordChar :: "char \<Rightarrow> bool" where
  "isWordChar c \<longleftrightarrow> c \<in> set ''abcdefghijklmnopqrstuvwxyzABCDEFGHIJKLMNOPQRSTUVWXYZ0123456789_''"

text \<open>\<^verbatim>\<open>\b\<close>: exactly one of the characters before and after the position is a word character.\<close>

definition atBoundary :: "char option \<Rightarrow> string \<Rightarrow> bool" where
  "atBoundary prev s \<longleftrightarrow>
     (case prev of None \<Rightarrow> False | Some c \<Rightarrow> isWordChar c)
       \<noteq> (case s of [] \<Rightarrow> False | c # cs \<Rightarrow> isWordChar c)"

text \<open>
  Backtracking match of a sequence of atoms at the start of \<open>s\<close>, where \<open>prev\<close> is the
  character before it: the length of the match, or \<open>None\<close>. A repetition first takes as
  many characters as it can and gives them back one by one while the rest fails.
\<close>

fun matchHere :: "atom list \<Rightarrow> char option \<Rightarrow> string \<Rightarrow> nat option" where
  "matchHere [] prev s = Some 0"
| "matchHere (One p # r) prev [] = None"
| "matchHere (One p # r) prev (c # cs) =
     (if p c then map_option Suc (matchHere r (Some c) cs) else None)"
| "matchHere (Many p # r) prev [] = matchHere r prev []"
| "matchHere (Many p # r) prev (c # cs) =
     (if p c then
        (case matchHere (Many p # r) (Some c) cs of
           Some n \<Rightarrow> Some (Suc n)
         | None \<Rightarrow> matchHere r prev (c # cs))
      else matchHere r prev (c # cs))"
| "matchHere (WordBoundary # r) prev s = (if atBoundary prev s then matchHere r prev s else None)"

text \<open>
  \<^verbatim>\<open>regex.exec\<close> from \<^verbatim>\<open>lastIndex\<close>: the leftmost match in \<open>s\<close>, as its index in \<open>s\<close> and its
  length.
\<close>

fun search :: "atom list \<Rightarrow> char option \<Rightarrow> string \<Rightarrow> (nat \<times> nat) option" where
  "search re prev [] = map_option (Pair 0) (matchHere re prev [])"
| "search re prev (c # cs) =
     (case matchHere re prev (c # cs) of
        Some n \<Rightarrow> Some (0, n)
      | None \<Rightarrow> map_option (\<lambda>(i, n). (Suc i, n)) (search re (Some c) cs))"

text \<open>A literal text, matched exactly or, under the flag \<^verbatim>\<open>i\<close>, up to the case of letters.\<close>

definition exact :: "string \<Rightarrow> atom list" where
  "exact s = map (\<lambda>c. One (\<lambda>x. x = c)) s"

definition anyCase :: "string \<Rightarrow> atom list" where
  "anyCase s = map (\<lambda>c. One (\<lambda>x. toUpperCase x = toUpperCase c)) s"

definition dq :: char where
  "dq = CHR 0x22"

text \<open>
  \<^verbatim>\<open>new RegExp(`<div([^>]*class="[^"]*\\b${blockName}\\b[^"]*"[^>]*)>`, 'gi')\<close>, for a block
  name without characters that are special in a regular expression.
\<close>

definition openTagRegex :: "string \<Rightarrow> atom list" where
  "openTagRegex blockName =
     anyCase ''<div'' @ [Many (\<lambda>x. x \<noteq> CHR ''>'')] @ anyCase ''class='' @ [One (\<lambda>x. x = dq)]
       @ [Many (\<lambda>x. x \<noteq> dq), WordBoundary] @ anyCase blockName
       @ [WordBoundary, Many (\<lambda>x. x \<noteq> dq), One (\<lambda>x. x = dq), Many (\<lambda>x. x \<noteq> CHR ''>''),
          One (\<lambda>x. x = CHR ''>'')]"

text \<open>\<^verbatim>\<open>/class="([^"]*)"/\<close>, \<^verbatim>\<open>/<div[^>]*>/g\<close> and \<^verbatim>\<open>/<\/div>/g\<close>.\<close>

definition classRegex :: "atom list" where
  "classRegex = exact ''class='' @ [One (\<lambda>x. x = dq), Many (\<lambda>x. x \<noteq> dq), One (\<lambda>x. x = dq)]"

definition divOpenRegex :: "atom list" where
  "divOpenRegex = exact ''<div'' @ [Many (\<lambda>x. x \<noteq> CHR ''>''), One (\<lambda>x. x = CHR ''>'')]"

definition divCloseRegex :: "atom list" where
  "divCloseRegex = exact ''</div>''"

text \<open>White space of \<^verbatim>\<open>\s\<close> and \<^verbatim>\<open>trim\<close> among the code units below 256.\<close>

definition isSpace :: "char \<Rightarrow> bool" where
  "isSpace c \<longleftrightarrow> c \<in> set [CHR 0x09, CHR 0x0A, CHR 0x0B, CHR 0x0C, CHR 0x0D, CHR 0x20, CHR 0xA0]"

definition trim :: "string \<Rightarrow> string" where
  "trim s = rev (dropWhile isSpace (rev (dropWhile isSpace s)))"

text \<open>
  \<^verbatim>\<open>split(/\s+/)\<close>: \<open>cur\<close> is the piece being read, \<open>inSep\<close> says that the last character
  was white space.
\<close>

fun splitSpaces :: "bool \<Rightarrow> string \<Rightarrow> string \<Rightarrow> string list" where
  "splitSpaces inSep [] cur = [cur]"
| "splitSpaces inSep (c # cs) cur =
     (if isSpace c then (if inSep then splitSpaces True cs cur else cur # splitSpaces True cs [])
      else splitSpaces False cs (cur @ [c]))"

text \<open>
  The result object \<^verbatim>\<open>blockInstances\<close>, as its own members in insertion order. The test
  \<^verbatim>\<open>if (blockInstances[variant])\<close> is true for a non-empty own member and for a name that
  \<^verbatim>\<open>Object.prototype\<close> provides.
\<close>

definition objectPrototypeKeys :: "string list" where
  "objectPrototypeKeys =
     [''constructor'', ''hasOwnProperty'', ''isPrototypeOf'', ''propertyIsEnumerable'',
      ''toLocaleString'', ''toString'', ''valueOf'', ''__proto__'', ''__defineGetter__'',
      ''__defineSetter__'', ''__lookupGetter__'', ''__lookupSetter__'']"

definition alreadyCaptured :: "(string \<times> string) list \<Rightarrow> string \<Rightarrow> bool" where
  "alreadyCaptured blockInstances variant =
     (case map_of blockInstances variant of
        Some content \<Rightarrow> content \<noteq> []
      | None \<Rightarrow> variant \<in> set objectPrototypeKeys)"

text \<open>
  The variant of one opening tag: the first class that is neither the block name nor
  starts with the block name and a hyphen, or the empty string.
\<close>

definition variantOf :: "string \<Rightarrow> string \<Rightarrow> string" where
  "variantOf blockName attributes =
     (let classes =
            (case search classRegex None attributes of
               None \<Rightarrow> []
             | Some (j, k) \<Rightarrow> splitSpaces False (take (k - 8) (drop (j + 7) attributes)) [])
      in (case find (\<lambda>cls. cls \<noteq> blockName \<and> \<not> startsWith cls (blockName @ ''-'')) classes of
            None \<Rightarrow> []
          | Some cls \<Rightarrow> cls))"


lemma matchHere_One_pos: "matchHere (One p # r) prev s = Some n \<Longrightarrow> 0 < n \<and> s \<noteq> []"
  by (cases s) (auto split: if_splits)

lemma search_One_pos: "search (One p # r) prev s = Some (i, n) \<Longrightarrow> 0 < n \<and> s \<noteq> []"
proof (induction s arbitrary: prev i)
  case Nil
  then show ?case by simp
next
  case (Cons c cs)
  show ?case
  proof (cases "matchHere (One p # r) prev (c # cs)")
    case None
    with Cons.prems obtain i' where "search (One p # r) (Some c) cs = Some (i', n)"
      by auto
    from Cons.IH [OF this] show ?thesis by simp
  next
    case (Some m)
    with Cons.prems have "m = n" by simp
    with matchHere_One_pos [OF Some] show ?thesis by simp
  qed
qed

lemma divRegex_pos:
  "search divOpenRegex prev s = Some (i, n) \<Longrightarrow> 0 < n \<and> s \<noteq> []"
  "search divCloseRegex prev s = Some (i, n) \<Longrightarrow> 0 < n \<and> s \<noteq> []"
  "search (openTagRegex blockName) prev s = Some (i, n) \<Longrightarrow> 0 < n \<and> s \<noteq> []"
  by (simp_all add: divOpenRegex_def divCloseRegex_def openTagRegex_def exact_def anyCase_def search_One_pos)

text \<open>
  The depth-tracked scan: \<open>rest\<close> is the text from \<^verbatim>\<open>pos\<close> on and \<open>pos\<close> counts from
  \<^verbatim>\<open>startPos\<close>. The result is the index of the closing tag that brings the depth to 0,
  counted from \<^verbatim>\<open>startPos\<close>, or \<open>None\<close> when the loop ends without one.
\<close>

function closeScan :: "nat \<Rightarrow> nat \<Rightarrow> string \<Rightarrow> nat option" where
  "closeScan depth pos rest =
     (if 0 < depth \<and> rest \<noteq> [] then
        (case search divCloseRegex None rest of
           None \<Rightarrow> None
         | Some (closeIndex, closeLen) \<Rightarrow>
             (case search divOpenRegex None rest of
                Some (openIndex, openLen) \<Rightarrow>
                  if openIndex < closeIndex
                  then closeScan (depth + 1) (pos + openIndex + openLen) (drop (openIndex + openLen) rest)
                  else if depth - 1 = 0 then Some (pos + closeIndex)
                  else closeScan (depth - 1) (pos + closeIndex + closeLen) (drop (closeIndex + closeLen) rest)
              | None \<Rightarrow>
                  if depth - 1 = 0 then Some (pos + closeIndex)
                  else closeScan (depth - 1) (pos + closeIndex + closeLen) (drop (closeIndex + closeLen) rest)))
      else None)"
  by pat_completeness auto
termination
  by (relation "measure (\<lambda>(depth, pos, rest). length rest)") (auto dest: divRegex_pos)

function scanBlocks ::
  "string \<Rightarrow> char option \<Rightarrow> string \<Rightarrow> (string \<times> string) list \<Rightarrow> (string \<times> string) list" where
  "scanBlocks blockName prev rest blockInstances =
     (case search (openTagRegex blockName) prev rest of
        None \<Rightarrow> blockInstances
      | Some (index, len) \<Rightarrow>
          let openTag = take len (drop index rest);
              attributes = butlast (drop 4 openTag);
              after = drop (index + len) rest;
              variant = variantOf blockName attributes
          in if alreadyCaptured blockInstances variant
             then scanBlocks blockName (Some (last openTag)) after blockInstances
             else (case closeScan 1 0 after of
                     None \<Rightarrow> scanBlocks blockName (Some (last openTag)) after blockInstances
                   | Some closeIndex \<Rightarrow>
                       scanBlocks blockName (Some (last openTag)) after
                         (setMember blockInstances variant (trim (take closeIndex after)))))"
  by pat_completeness auto
termination
  by (relation "measure (\<lambda>(blockName, prev, rest, blockInstances). length rest)")
    (auto dest: divRegex_pos)

definition parseBlockInstances :: "string \<Rightarrow> string \<Rightarrow> (string \<times> string) list" where
  "parseBlockInstances html blockName = scanBlocks blockName None html []"

section \<open>Properties of the path builder\<close>





section \<open>Properties of upsert\<close>

lemma findIndex_None_iff: "findIndex p xs = None \<longleftrightarrow> (\<forall>x \<in> set xs. \<not> p x)"
  by (induction xs) (auto split: option.splits)

lemma findIndex_Some_D:
  "findIndex p xs = Some i \<Longrightarrow> i < length xs \<and> p (xs ! i) \<and> (\<forall>j < i. \<not> p (xs ! j))"
proof (induction xs arbitrary: i)
  case Nil
  then show ?case by simp
next
  case (Cons x xs)
  show ?case
  proof (cases "p x")
    case True
    with Cons.prems show ?thesis by simp
  next
    case False
    with Cons.prems obtain i' where i': "findIndex p xs = Some i'" "i = Suc i'"
      by (auto split: option.splits)
    from Cons.IH [OF i'(1)] False i'(2) show ?thesis
      by (auto simp: nth_Cons split: nat.splits)
  qed
qed

lemma findIndex_update_self:
  "findIndex p xs = Some i \<Longrightarrow> p y \<Longrightarrow> findIndex p (xs[i := y]) = Some i"
proof (induction xs arbitrary: i)
  case Nil
  then show ?case by simp
next
  case (Cons x xs)
  then show ?case
    by (cases "p x") (auto split: option.splits)
qed

lemma findIndex_append_new:
  "findIndex p xs = None \<Longrightarrow> p y \<Longrightarrow> findIndex p (xs @ [y]) = Some (length xs)"
  by (induction xs) (auto split: option.splits if_splits)

lemma filter_update_first:
  "findIndex p xs = Some i \<Longrightarrow> p y \<Longrightarrow> length (filter p xs) \<le> 1 \<Longrightarrow> filter p (xs[i := y]) = [y]"
proof (induction xs arbitrary: i)
  case Nil
  then show ?case by simp
next
  case (Cons x xs)
  show ?case
  proof (cases "p x")
    case True
    with Cons.prems have "i = 0" and "filter p xs = []" by auto
    with Cons.prems(2) show ?thesis by simp
  next
    case False
    with Cons.prems obtain i' where i': "findIndex p xs = Some i'" "i = Suc i'"
      by (auto split: option.splits)
    from Cons.prems(3) False have "length (filter p xs) \<le> 1" by simp
    from Cons.IH [OF i'(1) Cons.prems(2) this] False i'(2) show ?thesis by simp
  qed
qed

lemma filter_append_new:
  "findIndex p xs = None \<Longrightarrow> p y \<Longrightarrow> filter p (xs @ [y]) = [y]"
  by (simp add: findIndex_None_iff)

lemma addEntry_idem: "addEntry (Some (addEntry S r k)) r k = addEntry S r k"
proof (cases "findIndex (\<lambda>item. map_of item k = map_of r k) (dataOrEmpty S)")
  case None
  from findIndex_append_new [OF None, of r]
  show ?thesis using None
    by (simp add: addEntry_def Let_def dataOrEmpty_def createSheetStructure_def)
next
  case (Some i)
  from findIndex_update_self [OF Some, of r] findIndex_Some_D [OF Some]
  show ?thesis using Some
    by (simp add: addEntry_def Let_def dataOrEmpty_def createSheetStructure_def)
qed

text \<open>
  C3, as stated, fails on a sheet that already holds two rows with the key of the new
  row: \<^verbatim>\<open>findIndex\<close> replaces the first of them only, so after upserting twice the sheet
  still holds two rows with that key, one of which is not the new row.
\<close>

definition dupSheet :: sheet where
  "dupSheet = createSheetStructure
     [[(''name'', ''a''), (''v'', ''1'')], [(''name'', ''a''), (''v'', ''2'')]]"

definition dupRow :: row where
  "dupRow = [(''name'', ''a''), (''v'', ''3'')]"

theorem C3_duplicate_keys_counterexample:
  "rowsWithKeyOf dupRow ''name''
     (dataOrEmpty (Some (addEntry (Some (addEntry (Some dupSheet) dupRow ''name'')) dupRow ''name'')))
   = [[(''name'', ''a''), (''v'', ''3'')], [(''name'', ''a''), (''v'', ''2'')]]"
  by (simp add: dupSheet_def dupRow_def addEntry_def Let_def dataOrEmpty_def
      createSheetStructure_def rowsWithKeyOf_def)

text \<open>
  C3 (amended): for every sheet \<open>S\<close> (or no sheet), row \<open>r\<close> and key field \<open>k\<close>, upserting
  \<open>r\<close> a second time changes nothing (idempotence); the upserted sheet contains \<open>r\<close>, its
  \<^verbatim>\<open>total\<close> and \<^verbatim>\<open>limit\<close> are its row count, and \<open>r\<close> either replaces the first row with its
  key at that row's position or, when no row has its key, is appended. When at most one
  row of \<open>S\<close> has the key value of \<open>r\<close> (so, whenever the rows of \<open>S\<close> have unique keys),
  the result contains exactly one row with that key value, and it is \<open>r\<close>.
\<close>

theorem C3_upsert_twice:
  "addEntry (Some (addEntry S r k)) r k = addEntry S r k
   \<and> r \<in> set (dataOrEmpty (Some (addEntry S r k)))
   \<and> sh_total (addEntry S r k) = Some (length (dataOrEmpty (Some (addEntry S r k))))
   \<and> sh_limit (addEntry S r k) = Some (length (dataOrEmpty (Some (addEntry S r k))))
   \<and> (case findIndex (\<lambda>item. map_of item k = map_of r k) (dataOrEmpty S) of
        Some i \<Rightarrow> i < length (dataOrEmpty S)
                  \<and> sh_data (addEntry S r k) = Some ((dataOrEmpty S)[i := r])
      | None \<Rightarrow> sh_data (addEntry S r k) = Some (dataOrEmpty S @ [r]))
   \<and> (length (rowsWithKeyOf r k (dataOrEmpty S)) \<le> 1 \<longrightarrow>
        rowsWithKeyOf r k (dataOrEmpty (Some (addEntry (Some (addEntry S r k)) r k))) = [r])"
proof (cases "findIndex (\<lambda>item. map_of item k = map_of r k) (dataOrEmpty S)")
  case None
  from filter_append_new [OF None, of r]
  show ?thesis using None
    by (simp add: addEntry_idem)
      (simp add: addEntry_def Let_def dataOrEmpty_def createSheetStructure_def rowsWithKeyOf_def)
next
  case (Some i)
  from filter_update_first [OF Some, of r] findIndex_Some_D [OF Some]
  show ?thesis using Some
    by (simp add: addEntry_idem)
      (auto simp add: addEntry_def Let_def dataOrEmpty_def createSheetStructure_def
        rowsWithKeyOf_def set_update_memI)
qed

theorem C3_upsert_twice_witness:
  "length (rowsWithKeyOf [(''name'', ''a''), (''v'', ''3'')] ''name''
     (dataOrEmpty (Some (createSheetStructure
        [[(''name'', ''a''), (''v'', ''1'')], [(''name'', ''b''), (''v'', ''2'')]])))) \<le> 1
   \<and> sh_data (addEntry (Some (createSheetStructure
        [[(''name'', ''a''), (''v'', ''1'')], [(''name'', ''b''), (''v'', ''2'')]]))
        [(''name'', ''a''), (''v'', ''3'')] ''name'')
      = Some [[(''name'', ''a''), (''v'', ''3'')], [(''name'', ''b''), (''v'', ''2'')]]
   \<and> rowsWithKeyOf [(''name'', ''a''), (''v'', ''3'')] ''name''
        (dataOrEmpty (Some (addEntry (Some (addEntry (Some (createSheetStructure
            [[(''name'', ''a''), (''v'', ''1'')], [(''name'', ''b''), (''v'', ''2'')]]))
           [(''name'', ''a''), (''v'', ''3'')] ''name''))
           [(''name'', ''a''), (''v'', ''3'')] ''name'')))
      = [[(''name'', ''a''), (''v'', ''3'')]]"
  using C3_upsert_twice [of "Some (createSheetStructure
        [[(''name'', ''a''), (''v'', ''1'')], [(''name'', ''b''), (''v'', ''2'')]])"
      "[(''name'', ''a''), (''v'', ''3'')]" "''name''"]
  by (simp add: dataOrEmpty_def createSheetStructure_def rowsWithKeyOf_def)

section \<open>Properties of the batch operation\<close>


definition threeIcons :: "row list" where
  "threeIcons =
     [[(''key'', ''search''), (''icon'', ''s.svg'')],
      [(''key'', ''email''), (''icon'', ''e.svg'')],
      [(''key'', ''cart''), (''icon'', ''c.svg'')]]"

definition flakyRemote :: remote where
  "flakyRemote = \<lparr> files = (\<lambda>url. None), faults = [None, None, None, Some ''API 500 Internal Server Error''] \<rparr>"



lemma setupSheetItems_one_fault_example:
  "fst (setupSheetItems flakyRemote ''org'' ''site'' threeIcons ''key'' ''/library/icons'' createIconsJSON createIconEntry)
   = \<lparr> sr_summary = \<lparr> sm_total = 3, sm_added = 2, sm_updated = 0, sm_failed = 1 \<rparr>,
       sr_items =
         [\<lparr> oc_item = [(''key'', ''search''), (''icon'', ''s.svg'')], oc_success = True,
             oc_existed = Some False, oc_error = None \<rparr>,
          \<lparr> oc_item = [(''key'', ''email''), (''icon'', ''e.svg'')], oc_success = False,
             oc_existed = None, oc_error = Some ''API 500 Internal Server Error'' \<rparr>,
          \<lparr> oc_item = [(''key'', ''cart''), (''icon'', ''c.svg'')], oc_success = True,
             oc_existed = Some False, oc_error = None \<rparr>],
       sr_errors = [''email: API 500 Internal Server Error''],
       sr_success = False \<rparr>
  \<and> files (snd (setupSheetItems flakyRemote ''org'' ''site'' threeIcons ''key'' ''/library/icons'' createIconsJSON createIconEntry))
      ''https://admin.da.live/source/org/site/library/icons.json''
    = Some (Sheet (createSheetStructure
         [[(''key'', ''search''), (''icon'', ''s.svg'')], [(''key'', ''cart''), (''icon'', ''c.svg'')]]))"
  by (simp add: setupSheetItems_def threeIcons_def flakyRemote_def createIconEntry_def copyMember_def
      addSheetItem_def getSheetJSON_def daAdminGet_def nextFault_def startsWith_def formatURL_def
      ADMIN_API_URL_def Let_def addEntry_def dataOrEmpty_def createIconsJSON_def createLibraryJSON_def
      LIBRARY_TYPES_def LIBRARY_CONFIG_def createSheet_def uploadSheetJSON_def daAdminSend_def
      entryExists_def errorLabel_def truthy_def printed_def createSheetStructure_def)



section \<open>Properties of the block library mutations\<close>














lemma not_found_includes_404: "includesStr ''API 404 Not Found'' ''404''"
  by (simp add: startsWith_def)













section \<open>Properties of the site configuration registrar\<close>

lemma migrateFlat_eq:
  "migrateFlat s =
     (MultiSheet \<lparr> ms_sheets = [(''data'', createSheetStructure (dataOrEmpty (Some s))),
                               (''library'', createSheetStructure [])],
                   ms_version = Some 3, ms_names = Some [''data'', ''library''] \<rparr>,
      length (dataOrEmpty (Some s)))"
  by (cases "sh_data s")
     (simp_all add: migrateFlat_def loadSheet_def emptyStore_def convertToMultiSheet_def newArray_def
       newObject_def newLibrarySheet_def storeCreateMultiSheetJSON_def reservedKeys_def dump_def
       dumpSheet_def createSheetStructure_def dataOrEmpty_def)

text \<open>
  C2: for every flat configuration sheet, with rows \<open>dataOrEmpty (Some s)\<close> (none when the
  \<^verbatim>\<open>data\<close> member is absent), migration reports as \<^verbatim>\<open>preservedRows\<close> the number of these
  rows, and the \<^verbatim>\<open>data\<close> sheet of the new multi-sheet document holds exactly these rows,
  in the same order.
\<close>

theorem C2_migration_preserves_rows:
  "snd (migrateFlat s) = length (dataOrEmpty (Some s))
   \<and> map_option sh_data (getDataSheet (Some (fst (migrateFlat s)))) = Some (Some (dataOrEmpty (Some s)))
   \<and> map fst (case fst (migrateFlat s) of MultiSheet m \<Rightarrow> ms_sheets m | other \<Rightarrow> [])
       = [''data'', ''library'']"
  by (simp add: migrateFlat_eq createSheetStructure_def)

text \<open>
  C7 fails on the code: \<^verbatim>\<open>convertToMultiSheet\<close> copies \<^verbatim>\<open>total\<close> and \<^verbatim>\<open>':colWidths'\<close> into
  the sheet it hands to \<^verbatim>\<open>createMultiSheetJSON\<close>, which reads nothing but the rows and
  computes \<^verbatim>\<open>total\<close> from them. A flat configuration with column widths comes out with
  a \<^verbatim>\<open>data\<close> sheet without column widths.
\<close>

definition widthsConfig :: sheet where
  "widthsConfig =
     \<lparr> sh_total = Some 2, sh_limit = Some 2, sh_offset = Some 0,
       sh_data = Some [[(''key'', ''a''), (''value'', ''1'')], [(''key'', ''b''), (''value'', ''2'')]],
       sh_colWidths = Some [120, 300] \<rparr>"

theorem C7_metadata_not_carried:
  "getDataSheet (Some (fst (migrateFlat widthsConfig)))
     = Some \<lparr> sh_total = Some 2, sh_limit = Some 2, sh_offset = Some 0,
              sh_data = Some [[(''key'', ''a''), (''value'', ''1'')], [(''key'', ''b''), (''value'', ''2'')]],
              sh_colWidths = None \<rparr>
   \<and> sh_colWidths widthsConfig = Some [120, 300]
   \<and> map_option sh_colWidths (getDataSheet (Some (fst (migrateFlat widthsConfig))))
       \<noteq> Some (sh_colWidths widthsConfig)"
  by (simp add: migrateFlat_eq createSheetStructure_def dataOrEmpty_def widthsConfig_def)

lemma loadSheet_frame:
  "loadSheet s st = (obj, st') \<Longrightarrow>
     fresh st \<le> fresh st' \<and> objects st' = objects st
     \<and> (\<forall>a < fresh st. arrays st' a = arrays st a)
     \<and> (\<forall>d. o_data obj = Some d \<longrightarrow> d < fresh st')
     \<and> dumpSheet st' obj = s"
  by (cases "sh_data s") (auto simp: loadSheet_def newArray_def dumpSheet_def)

lemma loadSheets_frame:
  "loadSheets xs st = (ms, st') \<Longrightarrow>
     fresh st \<le> fresh st'
     \<and> (\<forall>a < fresh st. arrays st' a = arrays st a \<and> objects st' a = objects st a)"
proof (induction xs arbitrary: st ms st')
  case Nil
  then show ?case by simp
next
  case (Cons x xs)
  obtain name s where x: "x = (name, s)" by (cases x)
  obtain obj st1 where l: "loadSheet s st = (obj, st1)" by (cases "loadSheet s st")
  obtain a st2 where n: "newObject obj st1 = (a, st2)" by (cases "newObject obj st1")
  obtain ms' st3 where r: "loadSheets xs st2 = (ms', st3)" by (cases "loadSheets xs st2")
  from Cons.prems x l n r have st3: "st' = st3" by simp
  from n have n': "fresh st2 = Suc (fresh st1)" "arrays st2 = arrays st1"
    "\<forall>b < fresh st1. objects st2 b = objects st1 b"
    by (auto simp: newObject_def)
  from loadSheet_frame [OF l] Cons.IH [OF r] n' st3 show ?case
    by auto
qed

lemma loadSheets_roundtrip:
  "loadSheets xs st = (ms, st') \<Longrightarrow>
     map (\<lambda>(name, a). (name, dumpSheet st' (objects st' a))) ms = xs"
proof (induction xs arbitrary: st ms st')
  case Nil
  then show ?case by simp
next
  case (Cons x xs)
  obtain name s where x: "x = (name, s)" by (cases x)
  obtain obj st1 where l: "loadSheet s st = (obj, st1)" by (cases "loadSheet s st")
  obtain a st2 where n: "newObject obj st1 = (a, st2)" by (cases "newObject obj st1")
  obtain ms' st3 where r: "loadSheets xs st2 = (ms', st3)" by (cases "loadSheets xs st2")
  from Cons.prems x l n r have res: "st' = st3" "ms = (name, a) # ms'" by simp_all
  from n have n': "a = fresh st1" "fresh st2 = Suc (fresh st1)" "arrays st2 = arrays st1"
    "objects st2 a = obj"
    by (auto simp: newObject_def)
  from loadSheet_frame [OF l] have d: "dumpSheet st1 obj = s"
    and dlt: "\<forall>d. o_data obj = Some d \<longrightarrow> d < fresh st1" by simp_all
  from loadSheets_frame [OF r] n' have keep: "objects st3 a = obj"
    "\<forall>b < fresh st1. arrays st3 b = arrays st1 b"
    by auto
  have "dumpSheet st3 (objects st3 a) = s"
    using d dlt keep by (cases "o_data obj") (auto simp: dumpSheet_def)
  with Cons.IH [OF r] res show ?case
    by (simp add: x)
qed

lemma buildSheets_frame:
  "buildSheets xs st = (outs, st') \<Longrightarrow>
     fresh st \<le> fresh st'
     \<and> (\<forall>a < fresh st. arrays st' a = arrays st a \<and> objects st' a = objects st a)"
proof (induction xs arbitrary: st outs st')
  case Nil
  then show ?case by simp
next
  case (Cons x xs)
  obtain name m where x: "x = (name, m)" by (cases x)
  let ?pick = "case m of
              SheetAt a \<Rightarrow>
                (case o_data (objects st a) of Some d \<Rightarrow> (d, st) | None \<Rightarrow> newArray [] st)
            | NotASheet \<Rightarrow> newArray [] st"
  obtain rows st1 where p: "?pick = (rows, st1)" by (cases ?pick)
  let ?obj = "\<lparr> o_total = Some (length (arrays st1 rows)),
                    o_limit = Some (length (arrays st1 rows)), o_offset = Some 0,
                    o_data = Some rows, o_colWidths = None \<rparr>"
  obtain out st2 where n: "newObject ?obj st1 = (out, st2)" by (cases "newObject ?obj st1")
  obtain outs' st3 where r: "buildSheets xs st2 = (outs', st3)" by (cases "buildSheets xs st2")
  from Cons.prems x p n r have st3: "st' = st3" by simp
  from p have p': "fresh st \<le> fresh st1"
    "\<forall>a < fresh st. arrays st1 a = arrays st a \<and> objects st1 a = objects st a"
    by (auto simp: newArray_def split: member.splits option.splits)
  from n have n': "fresh st2 = Suc (fresh st1)" "arrays st2 = arrays st1"
    "\<forall>b < fresh st1. objects st2 b = objects st1 b"
    by (auto simp: newObject_def)
  from Cons.IH [OF r] p' n' st3 show ?case
    by auto
qed

lemma buildSheets_dump:
  assumes "buildSheets xs st = (outs, st')"
    and "\<forall>(name, m) \<in> set xs.
           (case m of
              SheetAt a \<Rightarrow> a < fresh st \<and> (\<forall>d. o_data (objects st a) = Some d \<longrightarrow> d < fresh st)
            | NotASheet \<Rightarrow> True)"
  shows "map (\<lambda>(name, a). (name, dumpSheet st' (objects st' a))) outs
       = map (\<lambda>(name, m).
               (name, createSheetStructure
                  (case m of
                     SheetAt a \<Rightarrow> dataOrEmpty (Some (dumpSheet st (objects st a)))
                   | NotASheet \<Rightarrow> []))) xs"
  using assms
proof (induction xs arbitrary: st outs st')
  case Nil
  then show ?case by simp
next
  case (Cons x xs)
  obtain name m where x: "x = (name, m)" by (cases x)
  let ?pick = "case m of
              SheetAt a \<Rightarrow>
                (case o_data (objects st a) of Some d \<Rightarrow> (d, st) | None \<Rightarrow> newArray [] st)
            | NotASheet \<Rightarrow> newArray [] st"
  obtain rows st1 where p: "?pick = (rows, st1)" by (cases ?pick)
  let ?obj = "\<lparr> o_total = Some (length (arrays st1 rows)),
                    o_limit = Some (length (arrays st1 rows)), o_offset = Some 0,
                    o_data = Some rows, o_colWidths = None \<rparr>"
  obtain out st2 where n: "newObject ?obj st1 = (out, st2)" by (cases "newObject ?obj st1")
  obtain outs' st3 where r: "buildSheets xs st2 = (outs', st3)" by (cases "buildSheets xs st2")
  from Cons.prems(1) x p n r have res: "st' = st3" "outs = (name, out) # outs'" by simp_all
  from Cons.prems(2) x have inv_m: "case m of
        SheetAt a \<Rightarrow> a < fresh st \<and> (\<forall>d. o_data (objects st a) = Some d \<longrightarrow> d < fresh st)
      | NotASheet \<Rightarrow> True"
    by simp
  from p inv_m have p': "fresh st \<le> fresh st1" "rows < fresh st1"
    "\<forall>a < fresh st. arrays st1 a = arrays st a \<and> objects st1 a = objects st a"
    "arrays st1 rows = (case m of
                     SheetAt a \<Rightarrow> dataOrEmpty (Some (dumpSheet st (objects st a)))
                   | NotASheet \<Rightarrow> [])"
    by (auto simp: newArray_def dataOrEmpty_def dumpSheet_def split: member.splits option.splits)
  from n have n': "out = fresh st1" "fresh st2 = Suc (fresh st1)" "arrays st2 = arrays st1"
    "objects st2 out = ?obj" "\<forall>b < fresh st1. objects st2 b = objects st1 b"
    by (auto simp: newObject_def)
  have inv2: "\<forall>(name, m) \<in> set xs.
           (case m of
              SheetAt a \<Rightarrow> a < fresh st2 \<and> (\<forall>d. o_data (objects st2 a) = Some d \<longrightarrow> d < fresh st2)
            | NotASheet \<Rightarrow> True)"
    using Cons.prems(2) p' n' by (fastforce split: member.splits)
  have same: "(case m' of
                     SheetAt a \<Rightarrow> dataOrEmpty (Some (dumpSheet st2 (objects st2 a)))
                   | NotASheet \<Rightarrow> [])
            = (case m' of
                     SheetAt a \<Rightarrow> dataOrEmpty (Some (dumpSheet st (objects st a)))
                   | NotASheet \<Rightarrow> [])" if "(name', m') \<in> set xs" for name' m'
  proof (cases m')
    case NotASheet
    then show ?thesis by simp
  next
    case (SheetAt a)
    with that Cons.prems(2) have a: "a < fresh st" "\<forall>d. o_data (objects st a) = Some d \<longrightarrow> d < fresh st"
      by auto
    with p' n' have "objects st2 a = objects st a" by simp
    moreover from a p' n' have "\<forall>d. o_data (objects st a) = Some d \<longrightarrow> arrays st2 d = arrays st d"
      by simp
    ultimately show ?thesis
      using SheetAt by (cases "o_data (objects st a)") (simp_all add: dumpSheet_def dataOrEmpty_def)
  qed
  from buildSheets_frame [OF r] n' p' have keep: "objects st3 out = ?obj" "arrays st3 rows = arrays st1 rows"
    by auto
  have head: "dumpSheet st3 (objects st3 out) = createSheetStructure (arrays st1 rows)"
    using keep by (simp add: dumpSheet_def createSheetStructure_def)
  have "map (\<lambda>(name, a). (name, dumpSheet st3 (objects st3 a))) outs'
       = map (\<lambda>(name, m).
               (name, createSheetStructure
                  (case m of
                     SheetAt a \<Rightarrow> dataOrEmpty (Some (dumpSheet st2 (objects st2 a)))
                   | NotASheet \<Rightarrow> []))) xs"
    by (rule Cons.IH [OF r inv2])
  also have "\<dots> = map (\<lambda>(name, m).
               (name, createSheetStructure
                  (case m of
                     SheetAt a \<Rightarrow> dataOrEmpty (Some (dumpSheet st (objects st a)))
                   | NotASheet \<Rightarrow> []))) xs"
    using same by (intro map_cong refl) auto
  finally show ?case
    using res head p'(4) by (simp add: x)
qed

lemma loadSheets_bounds:
  "loadSheets xs st = (ms, st') \<Longrightarrow>
     \<forall>(name, a) \<in> set ms. a < fresh st' \<and> (\<forall>d. o_data (objects st' a) = Some d \<longrightarrow> d < fresh st')"
proof (induction xs arbitrary: st ms st')
  case Nil
  then show ?case by simp
next
  case (Cons x xs)
  obtain name s where x: "x = (name, s)" by (cases x)
  obtain obj st1 where l: "loadSheet s st = (obj, st1)" by (cases "loadSheet s st")
  obtain a st2 where n: "newObject obj st1 = (a, st2)" by (cases "newObject obj st1")
  obtain ms' st3 where r: "loadSheets xs st2 = (ms', st3)" by (cases "loadSheets xs st2")
  from Cons.prems x l n r have res: "st' = st3" "ms = (name, a) # ms'" by simp_all
  from n have n': "a = fresh st1" "fresh st2 = Suc (fresh st1)" "objects st2 a = obj"
    by (auto simp: newObject_def)
  from loadSheet_frame [OF l] have dlt: "\<forall>d. o_data obj = Some d \<longrightarrow> d < fresh st1" by simp
  from loadSheets_frame [OF r] n' have "fresh st2 \<le> fresh st3" "objects st3 a = obj"
    by auto
  with dlt n' have "a < fresh st3 \<and> (\<forall>d. o_data (objects st3 a) = Some d \<longrightarrow> d < fresh st3)"
    by auto
  with Cons.IH [OF r] res show ?case by simp
qed

text \<open>
  The two models of \<^verbatim>\<open>createMultiSheetJSON\<close> agree: building the sheets of a parsed
  document in the store and serialising the result gives the document that the function
  on values computes.
\<close>

lemma storeCreateMultiSheetJSON_refines:
  assumes "loadSheets xs st0 = (ms, st)"
    and "storeCreateMultiSheetJSON (map (\<lambda>(name, a). (name, SheetAt a)) ms) st = (out, st')"
  shows "dump st' out = createMultiSheetJSON xs"
proof -
  obtain outs where b: "buildSheets (map (\<lambda>(name, a). (name, SheetAt a)) ms) st = (outs, st')"
    and out: "out = \<lparr> mm_sheets = filter (\<lambda>(name, out). name \<notin> set reservedKeys) outs,
             mm_version = Some 3,
             mm_names = Some (map fst (map (\<lambda>(name, a). (name, SheetAt a)) ms)) \<rparr>"
    using assms(2)
    by (cases "buildSheets (map (\<lambda>(name, a). (name, SheetAt a)) ms) st")
      (auto simp: storeCreateMultiSheetJSON_def)
  from loadSheets_bounds [OF assms(1)]
  have inv: "\<forall>(name, m) \<in> set (map (\<lambda>(name, a). (name, SheetAt a)) ms).
           (case m of
              SheetAt a \<Rightarrow> a < fresh st \<and> (\<forall>d. o_data (objects st a) = Some d \<longrightarrow> d < fresh st)
            | NotASheet \<Rightarrow> True)"
    by auto
  have rt: "map (\<lambda>(name, a). (name, dumpSheet st (objects st a))) ms = xs"
    by (rule loadSheets_roundtrip [OF assms(1)])
  have "map (\<lambda>(name, a). (name, dumpSheet st' (objects st' a))) outs
      = map (\<lambda>(name, a). (name, createSheetStructure (dataOrEmpty (Some (dumpSheet st (objects st a)))))) ms"
    using buildSheets_dump [OF b inv] by (simp add: case_prod_unfold comp_def)
  also have "\<dots> = map (\<lambda>(name, s). (name, createSheetStructure (dataOrEmpty (Some s))))
      (map (\<lambda>(name, a). (name, dumpSheet st (objects st a))) ms)"
    by (simp add: case_prod_unfold comp_def)
  finally have sheets: "map (\<lambda>(name, a). (name, dumpSheet st' (objects st' a))) outs
      = map (\<lambda>(name, s). (name, createSheetStructure (dataOrEmpty (Some s)))) xs"
    by (simp only: rt)
  have names: "map fst (map (\<lambda>(name, a). (name, SheetAt a)) ms) = map fst xs"
    unfolding rt [symmetric] by (simp add: case_prod_unfold comp_def)
  have "map (\<lambda>(name, a). (name, dumpSheet st' (objects st' a)))
          (filter (\<lambda>(name, out). name \<notin> set reservedKeys) outs)
      = filter (\<lambda>(name, out). name \<notin> set reservedKeys)
          (map (\<lambda>(name, a). (name, dumpSheet st' (objects st' a))) outs)"
    by (simp add: filter_map comp_def case_prod_unfold)
  with sheets names out show ?thesis
    by (simp add: dump_def createMultiSheetJSON_def)
qed


lemma map_of_dumped:
  "map_of (map (\<lambda>(name, a). (name, f a)) ms) n = map_option f (map_of ms n)"
  by (induction ms) auto

text \<open>The effect of one registration on the rows of the library sheet.\<close>

definition registerRows :: "row list \<Rightarrow> string \<Rightarrow> string \<Rightarrow> row list" where
  "registerRows rows t p =
     (case findIndex (\<lambda>item. map_of item ''title'' = Some t) rows of
        Some i \<Rightarrow> rows[i := setMember (rows ! i) ''path'' p]
      | None \<Rightarrow> rows @ [createLibraryEntry t p rows])"

lemma register_with_library:
  assumes nf: "faults r = []"
    and cfg: "files r (buildConfigUrl org repo) = Some (MultiSheet m)"
    and lib: "map_of (ms_sheets m) ''library'' = Some lib"
    and rows: "sh_data lib = Some rows"
  shows "\<exists>m'. registerLibraryType r org repo t p =
           (\<lparr> registered = True,
              existed = (findIndex (\<lambda>item. map_of item ''title'' = Some t) rows \<noteq> None),
              createdSheet = False, convertedToMultiSheet = Some False,
              libraryEntryCount = Some (length (registerRows rows t p)), error = None \<rparr>,
            r \<lparr> files := (files r)(buildConfigUrl org repo := Some (MultiSheet m')) \<rparr>)
         \<and> map_of (ms_sheets m') ''library'' =
             Some (lib \<lparr> sh_data := Some (registerRows rows t p),
                         sh_total := Some (length (registerRows rows t p)),
                         sh_limit := Some (length (registerRows rows t p)) \<rparr>)"
proof -
  obtain ms st0 where ld: "loadSheets (ms_sheets m) emptyStore = (ms, st0)"
    by (cases "loadSheets (ms_sheets m) emptyStore")
  from loadSheets_roundtrip [OF ld]
  have rt: "map (\<lambda>(name, a). (name, dumpSheet st0 (objects st0 a))) ms = ms_sheets m" .
  from lib have "map_option (\<lambda>a. dumpSheet st0 (objects st0 a)) (map_of ms ''library'') = Some lib"
    by (simp add: rt [symmetric] map_of_dumped)
  then obtain a where a: "map_of ms ''library'' = Some a" "dumpSheet st0 (objects st0 a) = lib"
    by auto
  from a(2) rows obtain d where d: "o_data (objects st0 a) = Some d" "arrays st0 d = rows"
    by (auto simp: dumpSheet_def)
  have get: "getSiteConfig r org repo = (Inr (MultiSheet m), r)"
    using nf cfg by (simp add: getSiteConfig_def daAdminGet_def nextFault_def)
  let ?rows' = "registerRows rows t p"
  let ?st2 = "st0 \<lparr> arrays := (arrays st0)(d := ?rows') \<rparr>"
  let ?st3 = "?st2 \<lparr> objects := (objects ?st2)
                 (a := (objects ?st2 a) \<lparr> o_total := Some (length ?rows'), o_limit := Some (length ?rows') \<rparr>) \<rparr>"
  let ?mm = "\<lparr> mm_sheets = ms, mm_version = ms_version m, mm_names = ms_names m \<rparr>"
  let ?m' = "\<lparr> ms_sheets = map (\<lambda>(name, b). (name, dumpSheet ?st3 (objects ?st3 b))) ms,
               ms_version = ms_version m, ms_names = ms_names m \<rparr>"
  have run: "registerLibraryType r org repo t p =
           (\<lparr> registered = True,
              existed = (findIndex (\<lambda>item. map_of item ''title'' = Some t) rows \<noteq> None),
              createdSheet = False, convertedToMultiSheet = Some False,
              libraryEntryCount = Some (length ?rows'), error = None \<rparr>,
            r \<lparr> files := (files r)(buildConfigUrl org repo := Some (MultiSheet ?m')) \<rparr>)"
    using nf a(1) d
    by (cases "findIndex (\<lambda>item. map_of item ''title'' = Some t) rows")
      (simp_all add: registerLibraryType_def get ld Let_def uploadConfig_def daAdminSend_def
        nextFault_def registerRows_def dump_def)
  have "map_of (ms_sheets ?m') ''library'' = Some (dumpSheet ?st3 (objects ?st3 a))"
    using a(1) by (simp add: map_of_dumped)
  also have "dumpSheet ?st3 (objects ?st3 a) =
     lib \<lparr> sh_data := Some ?rows', sh_total := Some (length ?rows'), sh_limit := Some (length ?rows') \<rparr>"
    using a(2) d by (auto simp: dumpSheet_def)
  finally show ?thesis
    using run by blast
qed


lemma getLibrarySheet_no_fault:
  "faults r = [] \<Longrightarrow> files r (buildConfigUrl org repo) = Some (MultiSheet m) \<Longrightarrow>
     getLibrarySheet r org repo = (map_of (ms_sheets m) ''library'', r)"
  by (simp add: getLibrarySheet_def getSiteConfig_def daAdminGet_def nextFault_def)

lemma setMember_same: "map_of (setMember item k v) k = Some v"
proof -
  have "k \<in> fst ` set item \<Longrightarrow>
      map_of (map (\<lambda>(k', old). if k' = k then (k', v) else (k', old)) item) k = Some v"
    by (induction item) auto
  moreover have "k \<notin> fst ` set item \<Longrightarrow> map_of item k = None"
    by (simp add: map_of_eq_None_iff)
  ultimately show ?thesis
    by (simp add: setMember_def map_add_def)
qed

lemma setMember_other: "k' \<noteq> k \<Longrightarrow> map_of (setMember item k v) k' = map_of item k'"
proof -
  assume ne: "k' \<noteq> k"
  have "map_of (map (\<lambda>(j, old). if j = k then (j, v) else (j, old)) item) k' = map_of item k'"
    using ne by (induction item) auto
  with ne show ?thesis
    by (simp add: setMember_def map_add_def split: option.splits)
qed

lemma fill_columns_keeps:
  "k \<in> fst ` set e \<Longrightarrow>
     map_of (foldl (\<lambda>enriched key. if key \<in> fst ` set enriched then enriched else enriched @ [(key, [])]) e ks) k
       = map_of e k"
proof (induction ks arbitrary: e)
  case Nil
  then show ?case by simp
next
  case (Cons key ks)
  let ?e' = "if key \<in> fst ` set e then e else e @ [(key, [])]"
  from Cons.prems have in': "k \<in> fst ` set ?e'" by auto
  from Cons.prems have same: "map_of ?e' k = map_of e k"
    by (auto simp: map_add_def map_of_eq_None_iff split: option.splits)
  from Cons.IH [OF in'] same show ?case by simp
qed

lemma createLibraryEntry_members:
  "map_of (createLibraryEntry t p rows) ''title'' = Some t"
  "map_of (createLibraryEntry t p rows) ''path'' = Some p"
  by (cases rows; simp add: createLibraryEntry_def ensureLibraryColumns_def fill_columns_keeps)+

lemma registerRows_one:
  assumes "length (filter (\<lambda>item. map_of item ''title'' = Some t) rows) \<le> 1"
  shows "map (\<lambda>item. map_of item ''path'')
           (filter (\<lambda>item. map_of item ''title'' = Some t) (registerRows rows t p)) = [Some p]"
proof (cases "findIndex (\<lambda>item. map_of item ''title'' = Some t) rows")
  case None
  from filter_append_new [OF None, of "createLibraryEntry t p rows"]
  show ?thesis
    by (simp add: registerRows_def None createLibraryEntry_members)
next
  case (Some i)
  from findIndex_Some_D [OF Some] have "map_of (rows ! i) ''title'' = Some t" by simp
  then have "map_of (setMember (rows ! i) ''path'' p) ''title'' = Some t"
    by (simp add: setMember_other)
  from filter_update_first [OF Some this assms]
  show ?thesis
    by (simp add: registerRows_def Some setMember_same)
qed

lemma registerRows_count:
  assumes "length (filter (\<lambda>item. map_of item ''title'' = Some t) rows) \<le> 1"
  shows "length (filter (\<lambda>item. map_of item ''title'' = Some t) (registerRows rows t p)) \<le> 1"
proof -
  from registerRows_one [OF assms, of p]
  have "length (map (\<lambda>item. map_of item ''path'')
           (filter (\<lambda>item. map_of item ''title'' = Some t) (registerRows rows t p))) = 1"
    by simp
  then show ?thesis by simp
qed

text \<open>
  C4: for every site configuration whose library sheet has rows among which at most one
  carries the title of the type (so, whenever the titles are unique), and with no
  transport fault, registering the type with one path and then with another succeeds
  twice, and the library sheet then read back from the stored configuration contains
  exactly one row with that title, whose path is the second path.
\<close>

theorem C4_second_registration_wins:
  assumes nf: "faults r = []"
    and cfg: "files r (buildConfigUrl org repo) = Some (MultiSheet m)"
    and lib: "map_of (ms_sheets m) ''library'' = Some lib"
    and rows: "sh_data lib = Some rows"
    and uniq: "length (filter (\<lambda>item. map_of item ''title'' = Some t) rows) \<le> 1"
  shows "(let first = registerLibraryType r org repo t p1;
              second = registerLibraryType (snd first) org repo t p2;
              library = dataOrEmpty (fst (getLibrarySheet (snd second) org repo))
          in registered (fst first) \<and> registered (fst second) \<and> existed (fst second)
           \<and> map (\<lambda>item. map_of item ''path'')
                 (filter (\<lambda>item. map_of item ''title'' = Some t) library) = [Some p2])"
proof -
  from register_with_library [OF nf cfg lib rows, of t p1]
  obtain m1 where run1: "registerLibraryType r org repo t p1 =
           (\<lparr> registered = True,
              existed = (findIndex (\<lambda>item. map_of item ''title'' = Some t) rows \<noteq> None),
              createdSheet = False, convertedToMultiSheet = Some False,
              libraryEntryCount = Some (length (registerRows rows t p1)), error = None \<rparr>,
            r \<lparr> files := (files r)(buildConfigUrl org repo := Some (MultiSheet m1)) \<rparr>)"
    and lib1: "map_of (ms_sheets m1) ''library'' =
             Some (lib \<lparr> sh_data := Some (registerRows rows t p1),
                         sh_total := Some (length (registerRows rows t p1)),
                         sh_limit := Some (length (registerRows rows t p1)) \<rparr>)"
    by blast
  let ?r1 = "r \<lparr> files := (files r)(buildConfigUrl org repo := Some (MultiSheet m1)) \<rparr>"
  let ?lib1 = "lib \<lparr> sh_data := Some (registerRows rows t p1),
                         sh_total := Some (length (registerRows rows t p1)),
                         sh_limit := Some (length (registerRows rows t p1)) \<rparr>"
  let ?rows1 = "registerRows rows t p1"
  have nf1: "faults ?r1 = []" using nf by simp
  have cfg1: "files ?r1 (buildConfigUrl org repo) = Some (MultiSheet m1)" by simp
  have rows1: "sh_data ?lib1 = Some ?rows1" by simp
  from register_with_library [OF nf1 cfg1 lib1 rows1, of t p2]
  obtain m2 where run2: "registerLibraryType ?r1 org repo t p2 =
           (\<lparr> registered = True,
              existed = (findIndex (\<lambda>item. map_of item ''title'' = Some t) ?rows1 \<noteq> None),
              createdSheet = False, convertedToMultiSheet = Some False,
              libraryEntryCount = Some (length (registerRows ?rows1 t p2)), error = None \<rparr>,
            ?r1 \<lparr> files := (files ?r1)(buildConfigUrl org repo := Some (MultiSheet m2)) \<rparr>)"
    and lib2: "map_of (ms_sheets m2) ''library'' =
             Some (?lib1 \<lparr> sh_data := Some (registerRows ?rows1 t p2),
                         sh_total := Some (length (registerRows ?rows1 t p2)),
                         sh_limit := Some (length (registerRows ?rows1 t p2)) \<rparr>)"
    by blast
  let ?r2 = "?r1 \<lparr> files := (files ?r1)(buildConfigUrl org repo := Some (MultiSheet m2)) \<rparr>"
  have nf2: "faults ?r2 = []" using nf by simp
  have cfg2: "files ?r2 (buildConfigUrl org repo) = Some (MultiSheet m2)" by simp
  have final: "dataOrEmpty (fst (getLibrarySheet ?r2 org repo)) = registerRows ?rows1 t p2"
    using getLibrarySheet_no_fault [OF nf2 cfg2] lib2 by (simp add: dataOrEmpty_def)
  from registerRows_one [OF uniq, of p1]
  have "filter (\<lambda>item. map_of item ''title'' = Some t) ?rows1 \<noteq> []"
    by auto
  then have ex2: "findIndex (\<lambda>item. map_of item ''title'' = Some t) ?rows1 \<noteq> None"
    by (auto simp: findIndex_None_iff filter_empty_conv)
  from registerRows_one [OF registerRows_count [OF uniq, of p1], of p2]
  have one: "map (\<lambda>item. map_of item ''path'')
           (filter (\<lambda>item. map_of item ''title'' = Some t) (registerRows ?rows1 t p2)) = [Some p2]" .
  show ?thesis
    unfolding Let_def run1 snd_conv fst_conv run2 final
    using one ex2 by simp
qed

definition siteConfig :: multi where
  "siteConfig =
     \<lparr> ms_sheets =
         [(''data'', createSheetStructure [[(''key'', ''a''), (''value'', ''b'')]]),
          (''library'', createSheetStructure
             [[(''title'', ''Blocks''), (''path'', ''https://content.da.live/org/site/library/blocks.json'')]])],
       ms_version = Some 3, ms_names = Some [''data'', ''library''] \<rparr>"

definition siteRemote :: remote where
  "siteRemote =
     \<lparr> files = (\<lambda>url. None)(''https://admin.da.live/config/org/site'' := Some (MultiSheet siteConfig)),
       faults = [] \<rparr>"

theorem C4_second_registration_witness:
  "faults siteRemote = []
   \<and> files siteRemote (buildConfigUrl ''org'' ''site'') = Some (MultiSheet siteConfig)
   \<and> map_of (ms_sheets siteConfig) ''library''
       = Some (createSheetStructure
           [[(''title'', ''Blocks''), (''path'', ''https://content.da.live/org/site/library/blocks.json'')]])
   \<and> length (filter (\<lambda>item. map_of item ''title'' = Some ''Blocks'')
        [[(''title'', ''Blocks''), (''path'', ''https://content.da.live/org/site/library/blocks.json'')]]) \<le> 1
   \<and> map (\<lambda>item. map_of item ''path'')
        (filter (\<lambda>item. map_of item ''title'' = Some ''Blocks'')
          (dataOrEmpty (fst (getLibrarySheet
             (snd (registerLibraryType (snd (registerLibraryType siteRemote ''org'' ''site'' ''Blocks'' ''p1''))
                ''org'' ''site'' ''Blocks'' ''p2'')) ''org'' ''site''))))
      = [Some ''p2'']"
proof -
  have nf: "faults siteRemote = []" by (simp add: siteRemote_def)
  have cfg: "files siteRemote (buildConfigUrl ''org'' ''site'') = Some (MultiSheet siteConfig)"
    by (simp add: siteRemote_def buildConfigUrl_def formatURL_def ADMIN_API_URL_def dropTrailingSlash_def)
  have lib: "map_of (ms_sheets siteConfig) ''library''
       = Some (createSheetStructure
           [[(''title'', ''Blocks''), (''path'', ''https://content.da.live/org/site/library/blocks.json'')]])"
    by (simp add: siteConfig_def)
  have rows: "sh_data (createSheetStructure
           [[(''title'', ''Blocks''), (''path'', ''https://content.da.live/org/site/library/blocks.json'')]])
       = Some [[(''title'', ''Blocks''), (''path'', ''https://content.da.live/org/site/library/blocks.json'')]]"
    by (simp add: createSheetStructure_def)
  have uniq: "length (filter (\<lambda>item. map_of item ''title'' = Some ''Blocks'')
        [[(''title'', ''Blocks''), (''path'', ''https://content.da.live/org/site/library/blocks.json'')]]) \<le> 1"
    by simp
  from C4_second_registration_wins [OF nf cfg lib rows uniq, of "''p1''" "''p2''"] nf cfg lib uniq
  show ?thesis
    by (simp add: Let_def)
qed

section \<open>Properties of the block content extractor\<close>

definition heroPage :: string where
  "heroPage =
     ''<div class=\"hero dark\"><div class=\"inner\">X</div></div><div class=\"hero light\">Y</div>''"

text \<open>
  C1: for the page of the extraction scenario and the component \<^verbatim>\<open>hero\<close>, the extractor
  returns exactly the two entries \<^verbatim>\<open>dark\<close> and \<^verbatim>\<open>light\<close> with the inner markup of the two
  blocks. For the first block the depth-tracked scan starts behind the 23 characters of
  the opening tag with the counter at 1, crosses the nested element, and stops at the
  closing tag that brings the counter to 0, 26 characters further on.
\<close>

theorem C1_extraction_scenario:
  "parseBlockInstances heroPage ''hero''
     = [(''dark'', ''<div class=\"inner\">X</div>''), (''light'', ''Y'')]
   \<and> search (openTagRegex ''hero'') None heroPage = Some (0, 23)
   \<and> closeScan 1 0 (drop 23 heroPage) = Some 26
   \<and> trim (take 26 (drop 23 heroPage)) = ''<div class=\"inner\">X</div>''"
  by code_simp

text \<open>
  What the backtracking matcher accepts, said without backtracking: \<open>denotes re prev w f\<close>
  holds when the word \<open>w\<close>, preceded by the character \<open>prev\<close> and followed by the text
  \<open>f\<close>, splits into pieces that the atoms of \<open>re\<close> accept in turn.
\<close>

fun lastOr :: "char option \<Rightarrow> string \<Rightarrow> char option" where
  "lastOr prev [] = prev"
| "lastOr prev (c # cs) = Some (last (c # cs))"

fun denotes :: "atom list \<Rightarrow> char option \<Rightarrow> string \<Rightarrow> string \<Rightarrow> bool" where
  "denotes [] prev w f \<longleftrightarrow> w = []"
| "denotes (One p # r) prev w f \<longleftrightarrow> (\<exists>c w'. w = c # w' \<and> p c \<and> denotes r (Some c) w' f)"
| "denotes (Many p # r) prev w f \<longleftrightarrow>
     (\<exists>u w'. w = u @ w' \<and> list_all p u \<and> denotes r (lastOr prev u) w' f)"
| "denotes (WordBoundary # r) prev w f \<longleftrightarrow> atBoundary prev (w @ f) \<and> denotes r prev w f"

lemma lastOr_Cons: "lastOr prev (c # u) = lastOr (Some c) u"
  by (cases u) simp_all

lemma lastOr_append: "lastOr prev (u @ v) = lastOr (lastOr prev u) v"
  by (cases v; cases u) simp_all

lemma denotes_Many_skip: "denotes r prev w f \<Longrightarrow> denotes (Many p # r) prev w f"
  unfolding denotes.simps by (rule exI [of _ "[]"], rule exI [of _ w]) simp

lemma matchHere_sound:
  "matchHere re prev s = Some n \<Longrightarrow> n \<le> length s \<and> denotes re prev (take n s) (drop n s)"
proof (induction re prev s arbitrary: n rule: matchHere.induct)
  case (1 prev s)
  then show ?case by simp
next
  case (2 p r prev)
  then show ?case by simp
next
  case (3 p r prev c cs)
  from "3.prems" obtain m where pc: "p c" and m: "matchHere r (Some c) cs = Some m" "n = Suc m"
    by (auto split: if_splits)
  from "3.IH" [OF pc m(1)] pc m(2) show ?case by simp
next
  case (4 p r prev)
  from "4.prems" have "matchHere r prev [] = Some n" by simp
  from "4.IH" [OF this] have "n \<le> 0" "denotes r prev [] []" by simp_all
  then show ?case
    by (simp add: denotes_Many_skip)
next
  case (5 p r prev c cs)
  show ?case
  proof (cases "p c")
    case True
    show ?thesis
    proof (cases "matchHere (Many p # r) (Some c) cs")
      case None
      with "5.prems" True have "matchHere r prev (c # cs) = Some n" by simp
      from "5.IH"(2) [OF True None this]
      have "n \<le> length (c # cs)" "denotes r prev (take n (c # cs)) (drop n (c # cs))" by simp_all
      then show ?thesis
        by (simp only: denotes_Many_skip)
    next
      case (Some m)
      with "5.prems" True have n: "n = Suc m" by simp
      from "5.IH"(1) [OF True Some] obtain u w' where
        m: "m \<le> length cs" and u: "take m cs = u @ w'" "list_all p u"
        "denotes r (lastOr (Some c) u) w' (drop m cs)"
        by auto
      have "take n (c # cs) = (c # u) @ w'" using n u(1) by simp
      moreover have "list_all p (c # u)" using True u(2) by simp
      moreover have "denotes r (lastOr prev (c # u)) w' (drop n (c # cs))"
        using u(3) n by (simp only: lastOr_Cons) simp
      ultimately have "denotes (Many p # r) prev (take n (c # cs)) (drop n (c # cs))"
        unfolding denotes.simps by blast
      with m n show ?thesis by simp
    qed
  next
    case False
    with "5.prems" have "matchHere r prev (c # cs) = Some n" by simp
    from "5.IH"(3) [OF False this]
    have "n \<le> length (c # cs)" "denotes r prev (take n (c # cs)) (drop n (c # cs))" by simp_all
    then show ?thesis
      by (simp only: denotes_Many_skip)
  qed
next
  case (6 r prev s)
  from "6.prems" have b: "atBoundary prev s" and m: "matchHere r prev s = Some n"
    by (auto split: if_splits)
  from "6.IH" [OF b m] b show ?case by simp
qed

lemma matchHere_complete:
  "denotes re prev w f \<Longrightarrow> \<exists>n. matchHere re prev (w @ f) = Some n"
proof (induction re prev "w @ f" arbitrary: w f rule: matchHere.induct)
  case (1 prev)
  then show ?case by simp
next
  case (2 p r prev)
  then show ?case by auto
next
  case (3 p r prev c cs)
  from "3.prems" obtain w' where w: "w = c # w'" and pc: "p c" and d: "denotes r (Some c) w' f"
    using "3.hyps"(2) by auto
  from "3.hyps"(2) w have cs: "cs = w' @ f" by simp
  from "3.hyps"(1) [OF pc cs d] obtain m where "matchHere r (Some c) cs = Some m"
    unfolding cs by blast
  with pc "3.hyps"(2) [symmetric] show ?case by simp
next
  case (4 p r prev)
  from "4.hyps"(2) have e: "w = []" "f = []" by simp_all
  with "4.prems" have "denotes r prev [] []" by auto
  from "4.hyps"(1) [OF _ this] "4.hyps"(2) [symmetric] show ?case by simp
next
  case (5 p r prev c cs)
  from "5.prems" obtain u w' where u: "w = u @ w'" "list_all p u" "denotes r (lastOr prev u) w' f"
    by auto
  show ?case
  proof (cases "p c")
    case False
    with u "5.hyps"(4) have "u = []" by (cases u) auto
    with u have w': "w = w'" and d: "denotes r prev w' f" by simp_all
    from "5.hyps"(3) [OF False] "5.hyps"(4) w' d have "\<exists>n. matchHere r prev (c # cs) = Some n"
      by simp
    with False "5.hyps"(4) [symmetric] show ?thesis by simp
  next
    case True
    show ?thesis
    proof (cases "matchHere (Many p # r) (Some c) cs")
      case (Some m)
      with True "5.hyps"(4) [symmetric] show ?thesis by simp
    next
      case None
      have "u = []"
      proof (rule ccontr)
        assume "u \<noteq> []"
        then obtain u' where u': "u = c # u'" using u(1) "5.hyps"(4) by (cases u) auto
        with u "5.hyps"(4) have cs: "cs = (u' @ w') @ f" by simp
        from u u' have "list_all p u'" "denotes r (lastOr (Some c) u') w' f"
          using lastOr_Cons [of prev c u'] by simp_all
        then have "denotes (Many p # r) (Some c) (u' @ w') f"
          unfolding denotes.simps by blast
        from "5.hyps"(1) [OF True cs this] None show False
          unfolding cs by simp
      qed
      with u have w': "w = w'" and d: "denotes r prev w' f" by simp_all
      from "5.hyps"(2) [OF True None] "5.hyps"(4) w' d have "\<exists>n. matchHere r prev (c # cs) = Some n"
        by simp
      with True None "5.hyps"(4) [symmetric] show ?thesis by simp
    qed
  qed
next
  case (6 r prev)
  from "6.prems" have b: "atBoundary prev (w @ f)" and d: "denotes r prev w f" by simp_all
  from "6.hyps" [OF b refl d] b show ?case by simp
qed


text \<open>Two texts that differ at most in the case of their letters.\<close>

definition sameLetters :: "string \<Rightarrow> string \<Rightarrow> bool" where
  "sameLetters u v \<longleftrightarrow> map toUpperCase u = map toUpperCase v"

lemma denotes_append:
  "denotes (r1 @ r2) prev w f \<longleftrightarrow>
     (\<exists>w1 w2. w = w1 @ w2 \<and> denotes r1 prev w1 (w2 @ f) \<and> denotes r2 (lastOr prev w1) w2 f)"
proof (induction r1 arbitrary: prev w)
  case Nil
  then show ?case by simp
next
  case (Cons x r1)
  show ?case
  proof (cases x)
    case (One p)
    show ?thesis
    proof
      assume "denotes ((x # r1) @ r2) prev w f"
      then obtain c w' where w: "w = c # w'" "p c" and d: "denotes (r1 @ r2) (Some c) w' f"
        by (auto simp: One)
      from d obtain w1 w2 where "w' = w1 @ w2" "denotes r1 (Some c) w1 (w2 @ f)"
        "denotes r2 (lastOr (Some c) w1) w2 f"
        unfolding Cons.IH by blast
      with w have "w = (c # w1) @ w2 \<and> denotes (x # r1) prev (c # w1) (w2 @ f)
          \<and> denotes r2 (lastOr prev (c # w1)) w2 f"
        by (simp add: One lastOr_Cons del: lastOr.simps)
      then show "\<exists>w1 w2. w = w1 @ w2 \<and> denotes (x # r1) prev w1 (w2 @ f) \<and> denotes r2 (lastOr prev w1) w2 f"
        by blast
    next
      assume "\<exists>w1 w2. w = w1 @ w2 \<and> denotes (x # r1) prev w1 (w2 @ f) \<and> denotes r2 (lastOr prev w1) w2 f"
      then obtain w1 w2 where w: "w = w1 @ w2" and d1: "denotes (x # r1) prev w1 (w2 @ f)"
        and d2: "denotes r2 (lastOr prev w1) w2 f"
        by blast
      from d1 obtain c w1' where c: "w1 = c # w1'" "p c" "denotes r1 (Some c) w1' (w2 @ f)"
        by (auto simp: One)
      from d2 c(1) have "denotes r2 (lastOr (Some c) w1') w2 f"
        by (simp add: lastOr_Cons del: lastOr.simps)
      with c(3) have "denotes (r1 @ r2) (Some c) (w1' @ w2) f"
        unfolding Cons.IH by blast
      with w c show "denotes ((x # r1) @ r2) prev w f"
        by (simp add: One)
    qed
  next
    case (Many p)
    show ?thesis
    proof
      assume "denotes ((x # r1) @ r2) prev w f"
      then obtain u w' where w: "w = u @ w'" "list_all p u" and d: "denotes (r1 @ r2) (lastOr prev u) w' f"
        by (auto simp: Many)
      from d obtain w1 w2 where w': "w' = w1 @ w2" and d1: "denotes r1 (lastOr prev u) w1 (w2 @ f)"
        and d2: "denotes r2 (lastOr (lastOr prev u) w1) w2 f"
        unfolding Cons.IH by blast
      from w(2) d1 have "denotes (x # r1) prev (u @ w1) (w2 @ f)"
        unfolding Many denotes.simps by blast
      with w w' d2 have "w = (u @ w1) @ w2 \<and> denotes (x # r1) prev (u @ w1) (w2 @ f)
          \<and> denotes r2 (lastOr prev (u @ w1)) w2 f"
        by (simp add: lastOr_append)
      then show "\<exists>w1 w2. w = w1 @ w2 \<and> denotes (x # r1) prev w1 (w2 @ f) \<and> denotes r2 (lastOr prev w1) w2 f"
        by blast
    next
      assume "\<exists>w1 w2. w = w1 @ w2 \<and> denotes (x # r1) prev w1 (w2 @ f) \<and> denotes r2 (lastOr prev w1) w2 f"
      then obtain w1 w2 where w: "w = w1 @ w2" and d1: "denotes (x # r1) prev w1 (w2 @ f)"
        and d2: "denotes r2 (lastOr prev w1) w2 f"
        by blast
      from d1 obtain u w1' where u: "w1 = u @ w1'" "list_all p u" "denotes r1 (lastOr prev u) w1' (w2 @ f)"
        by (auto simp: Many)
      from d2 u(1) have "denotes r2 (lastOr (lastOr prev u) w1') w2 f"
        by (simp add: lastOr_append)
      with u(3) have "denotes (r1 @ r2) (lastOr prev u) (w1' @ w2) f"
        unfolding Cons.IH by blast
      with u(2) have "denotes (Many p # r1 @ r2) prev (u @ w1' @ w2) f"
        unfolding denotes.simps by blast
      with w u(1) show "denotes ((x # r1) @ r2) prev w f"
        by (simp add: Many)
    qed
  next
    case WordBoundary
    show ?thesis
      unfolding WordBoundary append_Cons denotes.simps Cons.IH
      by (metis append.assoc)
  qed
qed

lemma denotes_anyCase: "denotes (anyCase s) prev w f \<longleftrightarrow> sameLetters w s"
proof (induction s arbitrary: prev w)
  case Nil
  then show ?case by (auto simp: anyCase_def sameLetters_def)
next
  case (Cons c s)
  have "denotes (anyCase (c # s)) prev w f \<longleftrightarrow>
      (\<exists>x w'. w = x # w' \<and> toUpperCase x = toUpperCase c \<and> denotes (anyCase s) (Some x) w' f)"
    by (simp add: anyCase_def)
  also have "\<dots> \<longleftrightarrow> (\<exists>x w'. w = x # w' \<and> toUpperCase x = toUpperCase c \<and> sameLetters w' s)"
    by (simp add: Cons.IH)
  also have "\<dots> \<longleftrightarrow> sameLetters w (c # s)"
    by (cases w) (auto simp: sameLetters_def)
  finally show ?case .
qed

lemma denotes_exact: "denotes (exact s) prev w f \<longleftrightarrow> w = s"
proof (induction s arbitrary: prev w)
  case Nil
  then show ?case by (auto simp: exact_def)
next
  case (Cons c s)
  have "denotes (exact (c # s)) prev w f \<longleftrightarrow>
      (\<exists>x w'. w = x # w' \<and> x = c \<and> denotes (exact s) (Some x) w' f)"
    by (simp add: exact_def)
  also have "\<dots> \<longleftrightarrow> w = c # s"
    by (auto simp: Cons.IH)
  finally show ?case .
qed


lemma atBoundary_head: "x \<noteq> [] \<Longrightarrow> atBoundary prev (x @ y) = atBoundary prev x"
  by (cases x) (simp_all add: atBoundary_def)

lemma lastOr_Some: "lastOr (Some x) u = Some (last (x # u))"
  by (cases u) simp_all

lemma denotes_anyCase_then:
  "denotes (anyCase s @ r) prev w f \<longleftrightarrow>
     (\<exists>t w'. w = t @ w' \<and> sameLetters t s \<and> denotes r (lastOr prev t) w' f)"
  by (simp add: denotes_append denotes_anyCase)

text \<open>The part of the opening-tag expression behind the block name.\<close>

definition afterName :: "atom list" where
  "afterName = [WordBoundary, Many (\<lambda>x. x \<noteq> dq), One (\<lambda>x. x = dq), Many (\<lambda>x. x \<noteq> CHR ''>''),
          One (\<lambda>x. x = CHR ''>'')]"

lemma denotes_afterName:
  "denotes afterName prev w f \<longleftrightarrow>
     (\<exists>c d. w = c @ [dq] @ d @ ''>'' \<and> list_all (\<lambda>x. x \<noteq> dq) c \<and> list_all (\<lambda>x. x \<noteq> CHR ''>'') d
        \<and> atBoundary prev (c @ [dq]))"
proof
  assume "denotes afterName prev w f"
  then obtain c d where b: "atBoundary prev (w @ f)" and w: "w = c @ dq # d @ ''>''"
    and c: "list_all (\<lambda>x. x \<noteq> dq) c" and d: "list_all (\<lambda>x. x \<noteq> CHR ''>'') d"
    by (auto simp: afterName_def)
  from b w have "atBoundary prev ((c @ [dq]) @ (d @ ''>'' @ f))" by simp
  then have "atBoundary prev (c @ [dq])"
    by (subst (asm) atBoundary_head) simp_all
  with w c d show "\<exists>c d. w = c @ [dq] @ d @ ''>'' \<and> list_all (\<lambda>x. x \<noteq> dq) c
      \<and> list_all (\<lambda>x. x \<noteq> CHR ''>'') d \<and> atBoundary prev (c @ [dq])"
    by auto
next
  assume "\<exists>c d. w = c @ [dq] @ d @ ''>'' \<and> list_all (\<lambda>x. x \<noteq> dq) c
      \<and> list_all (\<lambda>x. x \<noteq> CHR ''>'') d \<and> atBoundary prev (c @ [dq])"
  then obtain c d where w: "w = c @ dq # d @ ''>''"
    and c: "list_all (\<lambda>x. x \<noteq> dq) c" and d: "list_all (\<lambda>x. x \<noteq> CHR ''>'') d"
    and b: "atBoundary prev (c @ [dq])"
    by auto
  from b have "atBoundary prev ((c @ [dq]) @ (d @ ''>'' @ f))"
    by (subst atBoundary_head) simp_all
  with w have b': "atBoundary prev (w @ f)" by simp
  have "denotes [Many (\<lambda>x. x \<noteq> dq), One (\<lambda>x. x = dq), Many (\<lambda>x. x \<noteq> CHR ''>''),
          One (\<lambda>x. x = CHR ''>'')] prev w f"
    unfolding w denotes.simps using c d by blast
  with b' show "denotes afterName prev w f"
    by (simp add: afterName_def)
qed

lemma openTagRegex_parts:
  "openTagRegex name =
     anyCase ''<div'' @ (Many (\<lambda>x. x \<noteq> CHR ''>'') # anyCase ''class='' @ (One (\<lambda>x. x = dq)
       # Many (\<lambda>x. x \<noteq> dq) # WordBoundary # anyCase name @ afterName))"
  by (simp add: openTagRegex_def afterName_def)

text \<open>
  What an opening tag selected for a block name looks like: \<^verbatim>\<open><div\<close>, text without
  \<^verbatim>\<open>>\<close>, \<^verbatim>\<open>class="\<close>, a value without double quote that contains the name between two
  word boundaries, the closing quote, text without \<^verbatim>\<open>>\<close>, and \<^verbatim>\<open>>\<close>; letters of
  \<^verbatim>\<open><div\<close>, \<^verbatim>\<open>class\<close> and the name in either case.
\<close>

definition selectedTag :: "string \<Rightarrow> string \<Rightarrow> bool" where
  "selectedTag name w \<longleftrightarrow>
     (\<exists>t a k b nm c d.
        w = t @ a @ k @ [dq] @ b @ nm @ c @ [dq] @ d @ ''>''
      \<and> sameLetters t ''<div'' \<and> list_all (\<lambda>x. x \<noteq> CHR ''>'') a \<and> sameLetters k ''class=''
      \<and> list_all (\<lambda>x. x \<noteq> dq) b \<and> sameLetters nm name \<and> list_all (\<lambda>x. x \<noteq> dq) c
      \<and> list_all (\<lambda>x. x \<noteq> CHR ''>'') d
      \<and> atBoundary (Some (last (dq # b))) (nm @ c @ [dq])
      \<and> atBoundary (Some (last (dq # b @ nm))) (c @ [dq]))"

lemma denotes_openTag_D:
  assumes "denotes (openTagRegex name) prev w f"
  shows "selectedTag name w"
proof -
  from assms obtain t w1 where w1: "w = t @ w1" and t: "sameLetters t ''<div''"
    and d1: "denotes (Many (\<lambda>x. x \<noteq> CHR ''>'') # anyCase ''class='' @ (One (\<lambda>x. x = dq)
       # Many (\<lambda>x. x \<noteq> dq) # WordBoundary # anyCase name @ afterName)) (lastOr prev t) w1 f"
    unfolding openTagRegex_parts denotes_anyCase_then [where s = "''<div''"] by blast
  from d1 obtain a w2 where w2: "w1 = a @ w2" and a: "list_all (\<lambda>x. x \<noteq> CHR ''>'') a"
    and d2: "denotes (anyCase ''class='' @ (One (\<lambda>x. x = dq)
       # Many (\<lambda>x. x \<noteq> dq) # WordBoundary # anyCase name @ afterName)) (lastOr (lastOr prev t) a) w2 f"
    unfolding denotes.simps(3) by blast
  from d2 obtain k w3 where w3: "w2 = k @ w3" and k: "sameLetters k ''class=''"
    and d3: "denotes (One (\<lambda>x. x = dq) # Many (\<lambda>x. x \<noteq> dq) # WordBoundary # anyCase name @ afterName)
       (lastOr (lastOr (lastOr prev t) a) k) w3 f"
    unfolding denotes_anyCase_then [where s = "''class=''"] by blast
  from d3 obtain w4 where w4: "w3 = dq # w4"
    and d4: "denotes (Many (\<lambda>x. x \<noteq> dq) # WordBoundary # anyCase name @ afterName) (Some dq) w4 f"
    unfolding denotes.simps(2) by blast
  from d4 obtain b w5 where w5: "w4 = b @ w5" and b: "list_all (\<lambda>x. x \<noteq> dq) b"
    and d5: "denotes (WordBoundary # anyCase name @ afterName) (lastOr (Some dq) b) w5 f"
    unfolding denotes.simps(3) by blast
  from d5 have b1w: "atBoundary (lastOr (Some dq) b) (w5 @ f)"
    and d6: "denotes (anyCase name @ afterName) (lastOr (Some dq) b) w5 f"
    by simp_all
  from d6 obtain nm w6 where w6: "w5 = nm @ w6" and nm: "sameLetters nm name"
    and d7: "denotes afterName (lastOr (lastOr (Some dq) b) nm) w6 f"
    unfolding denotes_anyCase_then [where s = name] by blast
  from d7 obtain c d where w7: "w6 = c @ [dq] @ d @ ''>''" and c: "list_all (\<lambda>x. x \<noteq> dq) c"
    and d: "list_all (\<lambda>x. x \<noteq> CHR ''>'') d"
    and b2: "atBoundary (lastOr (lastOr (Some dq) b) nm) (c @ [dq])"
    unfolding denotes_afterName by blast
  from w1 w2 w3 w4 w5 w6 w7 have w: "w = t @ a @ k @ dq # b @ nm @ c @ dq # d @ ''>''"
    by simp
  from b1w w6 w7 have b1: "atBoundary (lastOr (Some dq) b) ((nm @ c @ dq # d @ ''>'') @ f)"
    by simp
  from b1 have "atBoundary (lastOr (Some dq) b) ((nm @ c @ [dq]) @ (d @ ''>'' @ f))" by simp
  then have b1': "atBoundary (Some (last (dq # b))) (nm @ c @ [dq])"
    by (subst (asm) atBoundary_head) (simp_all add: lastOr_Some)
  have "lastOr (lastOr (Some dq) b) nm = Some (last (dq # b @ nm))"
    by (cases nm) (simp_all add: lastOr_Some)
  with b2 have b2': "atBoundary (Some (last (dq # b @ nm))) (c @ [dq])" by simp
  show ?thesis
    unfolding selectedTag_def append_Cons append_Nil using w t a k b nm c d b1' b2'
    by blast
qed

lemma denotes_openTag_I:
  assumes "selectedTag name w"
  shows "denotes (openTagRegex name) prev w f"
proof -
  from assms obtain t a k b nm c d where w: "w = t @ a @ k @ dq # b @ nm @ c @ dq # d @ ''>''"
    and t: "sameLetters t ''<div''" and a: "list_all (\<lambda>x. x \<noteq> CHR ''>'') a"
    and k: "sameLetters k ''class=''" and b: "list_all (\<lambda>x. x \<noteq> dq) b"
    and nm: "sameLetters nm name" and c: "list_all (\<lambda>x. x \<noteq> dq) c"
    and d: "list_all (\<lambda>x. x \<noteq> CHR ''>'') d"
    and b1: "atBoundary (Some (last (dq # b))) (nm @ c @ [dq])"
    and b2: "atBoundary (Some (last (dq # b @ nm))) (c @ [dq])"
    unfolding selectedTag_def append_Cons append_Nil by blast
  have l2: "lastOr (lastOr (Some dq) b) nm = Some (last (dq # b @ nm))"
    by (cases nm) (simp_all add: lastOr_Some)
  from c d b2 have d5: "denotes afterName (lastOr (lastOr (Some dq) b) nm) (c @ dq # d @ ''>'') f"
    unfolding denotes_afterName l2 append_Cons append_Nil by blast
  from nm d5 have d4: "denotes (anyCase name @ afterName) (lastOr (Some dq) b) (nm @ c @ dq # d @ ''>'') f"
    unfolding denotes_anyCase_then by blast
  from b1 have "atBoundary (Some (last (dq # b))) ((nm @ c @ [dq]) @ (d @ ''>'' @ f))"
    by (subst atBoundary_head) simp_all
  then have "atBoundary (lastOr (Some dq) b) ((nm @ c @ dq # d @ ''>'') @ f)"
    by (simp add: lastOr_Some)
  with d4 have d3: "denotes (WordBoundary # anyCase name @ afterName) (lastOr (Some dq) b)
      (nm @ c @ dq # d @ ''>'') f"
    by simp
  with b have d2: "denotes (Many (\<lambda>x. x \<noteq> dq) # WordBoundary # anyCase name @ afterName) (Some dq)
      (b @ nm @ c @ dq # d @ ''>'') f"
    unfolding denotes.simps(3) by blast
  then have d1: "denotes (One (\<lambda>x. x = dq) # Many (\<lambda>x. x \<noteq> dq) # WordBoundary # anyCase name @ afterName)
      (lastOr (lastOr prev (t @ a)) k) (dq # b @ nm @ c @ dq # d @ ''>'') f"
    by simp
  with k have "denotes (anyCase ''class='' @ (One (\<lambda>x. x = dq) # Many (\<lambda>x. x \<noteq> dq) # WordBoundary
        # anyCase name @ afterName))
      (lastOr (lastOr prev t) a) (k @ dq # b @ nm @ c @ dq # d @ ''>'') f"
    unfolding denotes_anyCase_then lastOr_append by blast
  with a have "denotes (Many (\<lambda>x. x \<noteq> CHR ''>'') # anyCase ''class='' @ (One (\<lambda>x. x = dq)
        # Many (\<lambda>x. x \<noteq> dq) # WordBoundary # anyCase name @ afterName))
      (lastOr prev t) (a @ k @ dq # b @ nm @ c @ dq # d @ ''>'') f"
    unfolding denotes.simps(3) by blast
  with t show ?thesis
    unfolding openTagRegex_parts w denotes_anyCase_then by blast
qed

lemma denotes_openTag: "denotes (openTagRegex name) prev w f \<longleftrightarrow> selectedTag name w"
  using denotes_openTag_D denotes_openTag_I by blast

lemma openTag_iff:
  "(\<exists>n. matchHere (openTagRegex name) prev s = Some n) \<longleftrightarrow> (\<exists>w rest. s = w @ rest \<and> selectedTag name w)"
proof
  assume "\<exists>n. matchHere (openTagRegex name) prev s = Some n"
  then obtain n where "matchHere (openTagRegex name) prev s = Some n" ..
  from matchHere_sound [OF this] have "selectedTag name (take n s)"
    by (simp add: denotes_openTag)
  moreover have "s = take n s @ drop n s" by simp
  ultimately show "\<exists>w rest. s = w @ rest \<and> selectedTag name w" by blast
next
  assume "\<exists>w rest. s = w @ rest \<and> selectedTag name w"
  then obtain w rest where s: "s = w @ rest" and "selectedTag name w" by blast
  then have "denotes (openTagRegex name) prev w rest"
    by (simp add: denotes_openTag)
  from matchHere_complete [OF this] s show "\<exists>n. matchHere (openTagRegex name) prev s = Some n"
    by simp
qed


lemma search_None:
  "(\<And>i p. i \<le> length s \<Longrightarrow> matchHere re p (drop i s) = None) \<Longrightarrow> search re prev s = None"
proof (induction s arbitrary: prev)
  case Nil
  from Nil [of 0 prev] show ?case by simp
next
  case (Cons c cs)
  from Cons.prems [of 0 prev] have here: "matchHere re prev (c # cs) = None" by simp
  have "search re (Some c) cs = None"
  proof (rule Cons.IH)
    fix i p
    assume "i \<le> length cs"
    with Cons.prems [of "Suc i" p] show "matchHere re p (drop i cs) = None" by simp
  qed
  with here show ?case by simp
qed

lemma search_Some:
  "search re prev s = Some (i, n) \<Longrightarrow> i \<le> length s \<and> (\<exists>p. matchHere re p (drop i s) = Some n)"
proof (induction s arbitrary: prev i)
  case Nil
  then show ?case by auto
next
  case (Cons c cs)
  show ?case
  proof (cases "matchHere re prev (c # cs)")
    case (Some m)
    with Cons.prems have "i = 0" "m = n" by simp_all
    with Some show ?thesis by auto
  next
    case None
    with Cons.prems obtain j where j: "search re (Some c) cs = Some (j, n)" "i = Suc j"
      by auto
    from Cons.IH [OF j(1)] j(2) show ?thesis by simp
  qed
qed

text \<open>A page that contains a selected opening tag somewhere.\<close>

definition hasSelectedTag :: "string \<Rightarrow> string \<Rightarrow> bool" where
  "hasSelectedTag name html \<longleftrightarrow> (\<exists>pre w rest. html = pre @ w @ rest \<and> selectedTag name w)"

lemma no_selected_tag_no_result:
  assumes "\<not> hasSelectedTag name html"
  shows "parseBlockInstances html name = []"
proof -
  have "search (openTagRegex name) None html = None"
  proof (rule search_None)
    fix i p
    assume "i \<le> length html"
    show "matchHere (openTagRegex name) p (drop i html) = None"
    proof (rule ccontr)
      assume "matchHere (openTagRegex name) p (drop i html) \<noteq> None"
      then have "\<exists>n. matchHere (openTagRegex name) p (drop i html) = Some n" by auto
      then obtain w rest where "drop i html = w @ rest" "selectedTag name w"
        unfolding openTag_iff by blast
      moreover have "html = take i html @ drop i html" by simp
      ultimately have "hasSelectedTag name html"
        unfolding hasSelectedTag_def by metis
      with assms show False by simp
    qed
  qed
  then show ?thesis
    by (simp add: parseBlockInstances_def)
qed

text \<open>
  Block names made of letters, digits, underscore and hyphen: none of these is special in
  a regular expression, so the name stands for itself in \<open>openTagRegex\<close>.
\<close>

definition plainName :: "string \<Rightarrow> bool" where
  "plainName name \<longleftrightarrow> list_all (\<lambda>c. isWordChar c \<or> c = CHR ''-'') name"

text \<open>A text occurs in another, up to the case of letters.\<close>

fun includesAnyCase :: "string \<Rightarrow> string \<Rightarrow> bool" where
  "includesAnyCase [] p = (p = [])"
| "includesAnyCase (c # cs) p = (sameLetters (take (length p) (c # cs)) p \<or> includesAnyCase cs p)"

lemma sameLetters_length: "sameLetters u v \<Longrightarrow> length u = length v"
  unfolding sameLetters_def by (metis length_map)

lemma includesAnyCase_here:
  assumes "sameLetters k p"
  shows "includesAnyCase (k @ z) p"
proof (cases "k @ z")
  case Nil
  with sameLetters_length [OF assms] show ?thesis by simp
next
  case (Cons c cs)
  from sameLetters_length [OF assms] have "take (length p) (k @ z) = k" by simp
  with assms Cons show ?thesis by simp
qed

lemma includesAnyCase_intro: "sameLetters k p \<Longrightarrow> includesAnyCase (a @ k @ z) p"
proof (induction a)
  case Nil
  then show ?case by (simp add: includesAnyCase_here)
next
  case (Cons x a)
  then show ?case by simp
qed

lemma class_text_no_gt:
  assumes "sameLetters k ''class=''"
  shows "list_all (\<lambda>x. x \<noteq> CHR ''>'') (k @ [dq])" and "sameLetters (k @ [dq]) (''class='' @ [dq])"
proof -
  from sameLetters_length [OF assms] obtain k1 k2 k3 k4 k5 k6 where k: "k = [k1, k2, k3, k4, k5, k6]"
    by (auto simp: length_Suc_conv eval_nat_numeral)
  have up: "toUpperCase (CHR ''>'') = CHR ''>''" by (simp add: toUpperCase_def)
  from assms k up show "list_all (\<lambda>x. x \<noteq> CHR ''>'') (k @ [dq])"
    by (auto simp: sameLetters_def dq_def toUpperCase_def)
  from assms show "sameLetters (k @ [dq]) (''class='' @ [dq])"
    by (simp add: sameLetters_def)
qed

lemma selectedTag_class_text:
  assumes "selectedTag name w"
  shows "includesAnyCase (takeWhile (\<lambda>c. c \<noteq> CHR ''>'') (drop 4 (w @ rest))) (''class='' @ [dq])"
proof -
  from assms obtain t a k z where w: "w = t @ a @ (k @ [dq]) @ z"
    and t: "sameLetters t ''<div''" and a: "list_all (\<lambda>x. x \<noteq> CHR ''>'') a"
    and k: "sameLetters k ''class=''"
    unfolding selectedTag_def by (metis append.assoc)
  from sameLetters_length [OF t] have "length t = 4" by simp
  with w have d: "drop 4 (w @ rest) = (a @ k @ [dq]) @ (z @ rest)" by simp
  from a class_text_no_gt(1) [OF k] have nogt: "\<forall>x \<in> set (a @ k @ [dq]). x \<noteq> CHR ''>''"
    by (auto simp: list_all_iff)
  have "takeWhile (\<lambda>c. c \<noteq> CHR ''>'') ((a @ k @ [dq]) @ (z @ rest))
      = (a @ k @ [dq]) @ takeWhile (\<lambda>c. c \<noteq> CHR ''>'') (z @ rest)"
    by (rule takeWhile_append2) (use nogt in blast)
  with d have "takeWhile (\<lambda>c. c \<noteq> CHR ''>'') (drop 4 (w @ rest))
      = a @ (k @ [dq]) @ takeWhile (\<lambda>c. c \<noteq> CHR ''>'') (z @ rest)"
    by simp
  with includesAnyCase_intro [OF class_text_no_gt(2) [OF k], of a "takeWhile (\<lambda>c. c \<noteq> CHR ''>'') (z @ rest)"]
  show ?thesis
    by simp
qed

lemma hasSelectedTag_class_text:
  assumes "hasSelectedTag name html"
  shows "includesAnyCase html (''class='' @ [dq])"
proof -
  from assms obtain pre w rest where h: "html = pre @ w @ rest" and "selectedTag name w"
    unfolding hasSelectedTag_def by blast
  then obtain t a k z where w: "w = t @ a @ (k @ [dq]) @ z" and k: "sameLetters k ''class=''"
    unfolding selectedTag_def by (metis append.assoc)
  from h w have "html = (pre @ t @ a) @ (k @ [dq]) @ (z @ rest)" by simp
  with includesAnyCase_intro [OF class_text_no_gt(2) [OF k], of "pre @ t @ a" "z @ rest"] show ?thesis
    by simp
qed

text \<open>
  C8, as stated, fails: the expression delimits the name with \<^verbatim>\<open>\b\<close>, and a hyphen is not
  a word character. The class list \<^verbatim>\<open>hero-banner\<close> has the single token
  \<^verbatim>\<open>hero-banner\<close>, yet the element is selected for the component \<^verbatim>\<open>hero\<close> and its
  content is recorded under the empty variant.
\<close>

theorem C8_hyphenated_class_counterexample:
  "parseBlockInstances ''<div class=\"hero-banner\">X</div>'' ''hero'' = [([], ''X'')]
   \<and> splitSpaces False ''hero-banner'' [] = [''hero-banner'']
   \<and> ''hero'' \<notin> set (splitSpaces False ''hero-banner'' [])"
  by code_simp

text \<open>
  C8 (amended): for every HTML input and every component name of letters, digits,
  underscore and hyphen, the opening-tag expression matches at a position if and only if
  the text there starts with a selected tag: \<^verbatim>\<open><div\<close>, then \<^verbatim>\<open>class="\<close> before any \<^verbatim>\<open>>\<close>, a
  value that contains the component name between two word boundaries (the characters
  around the occurrence are not both word characters and not both other characters),
  the closing quote and the closing \<^verbatim>\<open>>\<close>, letters compared without case. So the name
  inside a longer word (\<^verbatim>\<open>heroes\<close>) never produces a match, while the name beside a
  hyphen (\<^verbatim>\<open>hero-banner\<close>) does. The extractor records an entry only for a page that
  contains such a tag.
\<close>

theorem C8_selection_by_word_boundary:
  assumes "plainName name"
  shows "((\<exists>n. matchHere (openTagRegex name) prev s = Some n)
            \<longleftrightarrow> (\<exists>w rest. s = w @ rest \<and> selectedTag name w))
       \<and> (parseBlockInstances html name \<noteq> [] \<longrightarrow> hasSelectedTag name html)"
  using openTag_iff no_selected_tag_no_result by blast

theorem C8_selection_witness:
  "plainName ''hero''
   \<and> matchHere (openTagRegex ''hero'') None ''<div class=\"my hero\">Z</div>'' = Some 21
   \<and> (\<exists>w rest. ''<div class=\"my hero\">Z</div>'' = w @ rest \<and> selectedTag ''hero'' w)
   \<and> matchHere (openTagRegex ''hero'') None ''<div class=\"heroes\">Z</div>'' = None
   \<and> \<not> (\<exists>w rest. ''<div class=\"heroes\">Z</div>'' = w @ rest \<and> selectedTag ''hero'' w)
   \<and> parseBlockInstances ''<div class=\"my hero\">Z</div>'' ''hero'' = [(''my'', ''Z'')]
   \<and> hasSelectedTag ''hero'' ''<div class=\"my hero\">Z</div>''"
proof -
  have p: "plainName ''hero''"
    by (simp add: plainName_def isWordChar_def)
  have m1: "matchHere (openTagRegex ''hero'') None ''<div class=\"my hero\">Z</div>'' = Some 21"
    by code_simp
  have m2: "matchHere (openTagRegex ''hero'') None ''<div class=\"heroes\">Z</div>'' = None"
    by code_simp
  have r: "parseBlockInstances ''<div class=\"my hero\">Z</div>'' ''hero'' = [(''my'', ''Z'')]"
    by code_simp
  from C8_selection_by_word_boundary [OF p, of None "''<div class=\"my hero\">Z</div>''"
      "''<div class=\"my hero\">Z</div>''"]
    C8_selection_by_word_boundary [OF p, of None "''<div class=\"heroes\">Z</div>''" "[]"]
  show ?thesis
    using p m1 m2 r by simp
qed

text \<open>
  C10, as stated, fails: the expression looks for the text \<^verbatim>\<open>class="\<close> anywhere before the
  tag's first \<^verbatim>\<open>>\<close>, not for the attribute named \<^verbatim>\<open>class\<close>. An element whose class
  attribute is written with single quotes is matched through its \<^verbatim>\<open>data-class\<close> attribute
  and contributes an entry.
\<close>

theorem C10_single_quoted_class_counterexample:
  "parseBlockInstances ''<div class='hero' data-class=\"hero\">Y</div>'' ''hero'' = [([], ''Y'')]"
  by code_simp

text \<open>
  C10 (amended): for every HTML input and every component name of letters, digits,
  underscore and hyphen, the opening-tag expression matches at a position only when the
  text \<^verbatim>\<open>class="\<close> (letters in either case) occurs behind \<^verbatim>\<open><div\<close> and before the first
  \<^verbatim>\<open>>\<close>; a tag without that text, such as one whose class attribute is written with
  single quotes or without quotes and that has no other attribute ending in \<^verbatim>\<open>class\<close>,
  is never matched, and an input in which \<^verbatim>\<open>class="\<close> does not occur yields no entry.
\<close>

theorem C10_double_quoted_class_text_required:
  assumes "plainName name"
  shows "(matchHere (openTagRegex name) prev s \<noteq> None \<longrightarrow>
            includesAnyCase (takeWhile (\<lambda>c. c \<noteq> CHR ''>'') (drop 4 s)) (''class='' @ [dq]))
       \<and> (\<not> includesAnyCase html (''class='' @ [dq]) \<longrightarrow> parseBlockInstances html name = [])"
proof (intro conjI impI)
  assume "matchHere (openTagRegex name) prev s \<noteq> None"
  then have "\<exists>n. matchHere (openTagRegex name) prev s = Some n" by auto
  then obtain w rest where "s = w @ rest" "selectedTag name w"
    unfolding openTag_iff by blast
  with selectedTag_class_text
  show "includesAnyCase (takeWhile (\<lambda>c. c \<noteq> CHR ''>'') (drop 4 s)) (''class='' @ [dq])"
    by blast
next
  assume "\<not> includesAnyCase html (''class='' @ [dq])"
  with hasSelectedTag_class_text have "\<not> hasSelectedTag name html" by blast
  then show "parseBlockInstances html name = []"
    by (rule no_selected_tag_no_result)
qed

theorem C10_double_quoted_class_witness:
  "plainName ''hero''
   \<and> matchHere (openTagRegex ''hero'') None ''<div id=\"a\" CLASS=\"hero\">X</div>'' \<noteq> None
   \<and> includesAnyCase (takeWhile (\<lambda>c. c \<noteq> CHR ''>'') (drop 4 ''<div id=\"a\" CLASS=\"hero\">X</div>''))
        (''class='' @ [dq])
   \<and> \<not> includesAnyCase ''<div class='hero'>X</div>'' (''class='' @ [dq])
   \<and> parseBlockInstances ''<div class='hero'>X</div>'' ''hero'' = []
   \<and> \<not> includesAnyCase ''<div class=hero>X</div>'' (''class='' @ [dq])
   \<and> parseBlockInstances ''<div class=hero>X</div>'' ''hero'' = []"
proof -
  have p: "plainName ''hero''"
    by (simp add: plainName_def isWordChar_def)
  have m: "matchHere (openTagRegex ''hero'') None ''<div id=\"a\" CLASS=\"hero\">X</div>'' \<noteq> None"
    by code_simp
  have n1: "\<not> includesAnyCase ''<div class='hero'>X</div>'' (''class='' @ [dq])"
    by code_simp
  have n2: "\<not> includesAnyCase ''<div class=hero>X</div>'' (''class='' @ [dq])"
    by code_simp
  from C10_double_quoted_class_text_required [OF p, of None "''<div id=\"a\" CLASS=\"hero\">X</div>''"
      "''<div class='hero'>X</div>''"]
    C10_double_quoted_class_text_required [OF p, of None "[]" "''<div class=hero>X</div>''"]
  show ?thesis
    using p m n1 n2 by simp
qed

end
